theory Spec2Isabelle
  imports Complex_Main
begin

section \<open>NumPy values\<close>

text \<open>
  The module \<^verbatim>\<open>odm/feature_extractor/normalizations.py\<close> rescales pixel arrays with
  NumPy. An array is modelled by its element type, its shape and its elements in row-major
  order. Elements are exact rationals extended by the IEEE special values that a division
  by zero produces. The elements of a \<open>float32\<close> array that the module builds are rounded
  to \<open>float32\<close> (round to nearest, ties to even), at the conversion and after each
  arithmetic operation on the array. The values of the other element types are kept as
  exact rationals, and the sign of a zero is not modelled.
\<close>

datatype np_dtype =
  Int8 | Int16 | Int32 | Int64 | UInt8 | UInt16 | UInt32 | UInt64 | Float32 | Float64

datatype num = Fin rat | PInf | NInf | NaN

record ndarray =
  dtype :: np_dtype
  shape :: "nat list"
  data :: "num list"

text \<open>A NumPy scalar, as \<^verbatim>\<open>np.max\<close> returns it, keeps the element type of its array.\<close>

type_synonym scalar = "np_dtype \<times> num"

text \<open>Signedness and width of the integer element types; \<open>None\<close> for the floating types.\<close>

fun int_range :: "np_dtype \<Rightarrow> (bool \<times> nat) option" where
  "int_range Int8 = Some (True, 8)"
| "int_range Int16 = Some (True, 16)"
| "int_range Int32 = Some (True, 32)"
| "int_range Int64 = Some (True, 64)"
| "int_range UInt8 = Some (False, 8)"
| "int_range UInt16 = Some (False, 16)"
| "int_range UInt32 = Some (False, 32)"
| "int_range UInt64 = Some (False, 64)"
| "int_range Float32 = None"
| "int_range Float64 = None"

text \<open>Fixed-width integer arithmetic wraps around (NumPy only warns).\<close>

definition wrap_int :: "bool \<Rightarrow> nat \<Rightarrow> int \<Rightarrow> int" where
  "wrap_int is_signed bits v =
     (if is_signed then (v + 2 ^ (bits - 1)) mod 2 ^ bits - 2 ^ (bits - 1) else v mod 2 ^ bits)"

subsection \<open>Floating-point operations with infinities and NaN\<close>

fun fsub :: "num \<Rightarrow> num \<Rightarrow> num" where
  "fsub NaN y = NaN"
| "fsub x NaN = NaN"
| "fsub (Fin a) (Fin b) = Fin (a - b)"
| "fsub (Fin a) PInf = NInf"
| "fsub (Fin a) NInf = PInf"
| "fsub PInf PInf = NaN"
| "fsub PInf y = PInf"
| "fsub NInf NInf = NaN"
| "fsub NInf y = NInf"

fun fdiv :: "num \<Rightarrow> num \<Rightarrow> num" where
  "fdiv NaN y = NaN"
| "fdiv x NaN = NaN"
| "fdiv (Fin a) (Fin b) =
     (if b = 0 then (if a = 0 then NaN else if 0 < a then PInf else NInf) else Fin (a / b))"
| "fdiv (Fin a) y = Fin 0"
| "fdiv PInf (Fin b) = (if 0 \<le> b then PInf else NInf)"
| "fdiv NInf (Fin b) = (if 0 \<le> b then NInf else PInf)"
| "fdiv x y = NaN"

fun fmul :: "num \<Rightarrow> num \<Rightarrow> num" where
  "fmul NaN y = NaN"
| "fmul x NaN = NaN"
| "fmul (Fin a) (Fin b) = Fin (a * b)"
| "fmul (Fin a) PInf = (if a = 0 then NaN else if 0 < a then PInf else NInf)"
| "fmul (Fin a) NInf = (if a = 0 then NaN else if 0 < a then NInf else PInf)"
| "fmul PInf (Fin b) = (if b = 0 then NaN else if 0 < b then PInf else NInf)"
| "fmul NInf (Fin b) = (if b = 0 then NaN else if 0 < b then NInf else PInf)"
| "fmul PInf PInf = PInf"
| "fmul PInf NInf = NInf"
| "fmul NInf PInf = NInf"
| "fmul NInf NInf = PInf"

text \<open>The order of IEEE comparison: false as soon as one side is NaN.\<close>

fun fle :: "num \<Rightarrow> num \<Rightarrow> bool" where
  "fle NaN y = False"
| "fle x NaN = False"
| "fle NInf y = True"
| "fle x PInf = True"
| "fle (Fin a) (Fin b) = (a \<le> b)"
| "fle x y = False"

text \<open>\<^verbatim>\<open>np.maximum\<close> and \<^verbatim>\<open>np.minimum\<close> propagate NaN.\<close>

definition fmax2 :: "num \<Rightarrow> num \<Rightarrow> num" where
  "fmax2 x y = (if x = NaN \<or> y = NaN then NaN else if fle x y then y else x)"

definition fmin2 :: "num \<Rightarrow> num \<Rightarrow> num" where
  "fmin2 x y = (if x = NaN \<or> y = NaN then NaN else if fle x y then x else y)"

subsection \<open>Rounding to \<open>float32\<close>\<close>

text \<open>
  A finite \<open>float32\<close> value is \<open>m * 2 ^ i / 2 ^ 149\<close> for integers \<open>\<bar>m\<bar> < 2 ^ 24\<close> and
  \<open>i < 254\<close>: the least spacing is \<open>1 / 2 ^ 149\<close> (subnormal values) and the largest finite
  value is \<open>(2 ^ 24 - 1) * 2 ^ 104\<close>.
\<close>

text \<open>The nearest integer, the even one of the two when \<open>x\<close> lies halfway.\<close>

definition round_half_even :: "rat \<Rightarrow> int" where
  "round_half_even x =
     (let f = \<lfloor>x\<rfloor>; d = x - of_int f
      in if d < 1 / 2 then f else if 1 / 2 < d then f + 1 else if even f then f else f + 1)"

text \<open>The spacing \<open>2 ^ i / 2 ^ 149\<close> of the \<open>float32\<close> values around \<open>q\<close>: the least \<open>i\<close> for
  which \<open>\<bar>q\<bar>\<close> is below \<open>2 ^ 24\<close> spacings, the largest spacing beyond the finite range.\<close>

definition ulp_index :: "rat \<Rightarrow> nat" where
  "ulp_index q =
     (case find (\<lambda>i. \<bar>q\<bar> * 2 ^ 149 < 2 ^ (i + 24)) [0..<254] of Some i \<Rightarrow> i | None \<Rightarrow> 253)"

text \<open>Rounding of a rational to \<open>float32\<close>: to the nearest multiple of the spacing, to an
  infinity when that is \<open>2 ^ 128\<close> or more in absolute value.\<close>

definition round32 :: "rat \<Rightarrow> num" where
  "round32 q =
     (let i = ulp_index q;
          m = round_half_even (q * 2 ^ 149 / 2 ^ i);
          v = of_int m * 2 ^ i / 2 ^ 149
      in if 2 ^ 128 \<le> v then PInf else if v \<le> - (2 ^ 128) then NInf else Fin v)"

text \<open>Conversion of a value to an element type. The module converts to \<open>float32\<close> only;
  a value of another element type is kept as it is.\<close>

fun round_to :: "np_dtype \<Rightarrow> num \<Rightarrow> num" where
  "round_to Float32 (Fin q) = round32 q"
| "round_to t x = x"

subsection \<open>The NumPy primitives the module calls\<close>

text \<open>
  The exceptions that a call can raise. \<^verbatim>\<open>TypeError\<close> and \<^verbatim>\<open>ValueError\<close> carry their
  message, \<^verbatim>\<open>AttributeError\<close> the name of the attribute that is missing. The module
  raises \<^verbatim>\<open>TypeError\<close> for an input of an unsupported type and \<^verbatim>\<open>ValueError\<close> for an
  invalid name of a normalization.
\<close>

datatype error = TypeError string | ValueError string | AttributeError string

text \<open>\<^verbatim>\<open>np.max(pixels)\<close> and \<^verbatim>\<open>np.min(pixels)\<close>: a reduction over all elements, which raises
  on an array without elements.\<close>

definition np_max :: "ndarray \<Rightarrow> error + scalar" where
  "np_max a =
     (case data a of
        [] \<Rightarrow> Inl (ValueError ''zero-size array to reduction operation maximum which has no identity'')
      | x # xs \<Rightarrow> Inr (dtype a, foldl fmax2 x xs))"

definition np_min :: "ndarray \<Rightarrow> error + scalar" where
  "np_min a =
     (case data a of
        [] \<Rightarrow> Inl (ValueError ''zero-size array to reduction operation minimum which has no identity'')
      | x # xs \<Rightarrow> Inr (dtype a, foldl fmin2 x xs))"

text \<open>\<^verbatim>\<open>max_val - min_val\<close> on two scalars of one element type: integer scalars wrap around
  at the width of their type, floating scalars subtract as floats of their type.\<close>

definition scalar_sub :: "scalar \<Rightarrow> scalar \<Rightarrow> scalar" where
  "scalar_sub x y =
     (case int_range (fst x) of
        None \<Rightarrow> (fst x, round_to (fst x) (fsub (snd x) (snd y)))
      | Some (is_signed, bits) \<Rightarrow>
          (case (snd x, snd y) of
             (Fin a, Fin b) \<Rightarrow> (fst x, Fin (of_int (wrap_int is_signed bits (\<lfloor>a\<rfloor> - \<lfloor>b\<rfloor>))))
           | _ \<Rightarrow> (fst x, fsub (snd x) (snd y))))"

text \<open>\<^verbatim>\<open>pixels.astype(t)\<close>: an array of the same shape whose elements are those of
  \<open>pixels\<close> converted to the element type \<open>t\<close>.\<close>

definition astype :: "ndarray \<Rightarrow> np_dtype \<Rightarrow> ndarray" where
  "astype a t = a\<lparr>dtype := t, data := map (round_to t) (data a)\<rparr>"

text \<open>Iterating over an array yields its slices along the first axis.\<close>

definition slices :: "ndarray \<Rightarrow> ndarray list" where
  "slices a =
     (case shape a of
        [] \<Rightarrow> []
      | n # rest \<Rightarrow>
          map (\<lambda>i. \<lparr>dtype = dtype a, shape = rest,
                    data = take (prod_list rest) (drop (i * prod_list rest) (data a))\<rparr>)
              [0..<n])"

section \<open>Python objects and the store\<close>

text \<open>
  Python passes references. The store is the list of all objects allocated so far, an
  address is an index into it, and a new object is put at the end. A list holds the
  addresses of its elements; a \<^verbatim>\<open>types.SimpleNamespace\<close> holds the address of its
  \<^verbatim>\<open>pixels\<close> attribute when it has one (\<open>None\<close> when it has no such attribute), a
  \<^verbatim>\<open>FileDataset\<close> the address of its \<^verbatim>\<open>pixel_array\<close>. Any other
  value is known by the name of its type only. A NumPy scalar met while iterating over a
  one-dimensional array is represented as an array of shape \<open>[]\<close>.
\<close>

datatype obj =
  ListObj "nat list"
| ArrayObj ndarray
| NamespaceObj "nat option"
| DatasetObj nat
| OtherObj string

record state =
  heap :: "obj list"
  logged :: "string list"

definition deref :: "state \<Rightarrow> nat \<Rightarrow> obj" where
  "deref s a = (if a < length (heap s) then heap s ! a else OtherObj ''NoneType'')"

definition alloc :: "state \<Rightarrow> obj \<Rightarrow> nat \<times> state" where
  "alloc s ob = (length (heap s), s\<lparr>heap := heap s @ [ob]\<rparr>)"

definition store :: "state \<Rightarrow> nat \<Rightarrow> obj \<Rightarrow> state" where
  "store s a ob = s\<lparr>heap := (heap s)[a := ob]\<rparr>"

text \<open>\<^verbatim>\<open>logger.info\<close>: the record names its call site; the elapsed time is not modelled.\<close>

definition logger_info :: "state \<Rightarrow> string \<Rightarrow> state" where
  "logger_info s m = s\<lparr>logged := logged s @ [m]\<rparr>"

fun type_name :: "obj \<Rightarrow> string" where
  "type_name (ListObj xs) = ''list''"
| "type_name (ArrayObj a) = ''numpy.ndarray''"
| "type_name (NamespaceObj p) = ''types.SimpleNamespace''"
| "type_name (DatasetObj p) = ''pydicom.dataset.FileDataset''"
| "type_name (OtherObj t) = t"

text \<open>The message \<^verbatim>\<open>f"Unknown type of images: {type(image)}"\<close>.\<close>

definition unknown_type_msg :: "string \<Rightarrow> string" where
  "unknown_type_msg t = ''Unknown type of images: <class '' @ [CHR 0x27] @ t @ [CHR 0x27] @ ''>''"

text \<open>\<^verbatim>\<open>pixels.append(x)\<close> on the list at address \<open>l\<close>.\<close>

definition list_append :: "state \<Rightarrow> nat \<Rightarrow> nat \<Rightarrow> state" where
  "list_append s l x =
     (case deref s l of ListObj xs \<Rightarrow> store s l (ListObj (xs @ [x])) | _ \<Rightarrow> s)"

text \<open>An in-place arithmetic operator with a scalar operand \<open>v\<close> on the array at address
  \<open>a\<close> (\<^verbatim>\<open>arr -= v\<close>, \<^verbatim>\<open>arr /= v\<close>, \<^verbatim>\<open>arr *= v\<close>). The array keeps its element type: the
  scalar is converted to it (NumPy's value-based casting of a scalar operand), and each
  result is rounded to it. A finite scalar beyond the range of \<open>float32\<close> is converted
  to an infinity.\<close>

definition inplace :: "state \<Rightarrow> nat \<Rightarrow> (num \<Rightarrow> num \<Rightarrow> num) \<Rightarrow> num \<Rightarrow> state" where
  "inplace s a op v =
     (case deref s a of
        ArrayObj arr \<Rightarrow>
          store s a
            (ArrayObj (arr\<lparr>data := map (\<lambda>x. round_to (dtype arr) (op x (round_to (dtype arr) v)))
                                     (data arr)\<rparr>))
      | _ \<Rightarrow> s)"

section \<open>The class \<^verbatim>\<open>Normalize\<close>\<close>

subsection \<open>\<^verbatim>\<open>extract_pixels\<close>\<close>

text \<open>The loop \<^verbatim>\<open>for image in images\<close> of the list branch; \<open>pixels\<close> is the address of the
  list being filled and \<open>img\<close> stands for the loop variable.\<close>

fun extract_loop :: "state \<Rightarrow> nat \<Rightarrow> nat list \<Rightarrow> (error + unit) \<times> state" where
  "extract_loop s pixels [] = (Inr (), s)"
| "extract_loop s pixels (img # images) =
     (case deref s img of
        ArrayObj a \<Rightarrow> extract_loop (list_append s pixels img) pixels images
      | NamespaceObj attr \<Rightarrow>
          (case attr of
             None \<Rightarrow> (Inl (AttributeError ''pixels''), s)
           | Some p \<Rightarrow> extract_loop (list_append s pixels p) pixels images)
      | DatasetObj p \<Rightarrow> extract_loop (list_append s pixels p) pixels images
      | ListObj xs \<Rightarrow> (Inl (TypeError (unknown_type_msg (type_name (ListObj xs)))), s)
      | OtherObj t \<Rightarrow> (Inl (TypeError (unknown_type_msg (type_name (OtherObj t)))), s))"

definition extract_pixels :: "state \<Rightarrow> nat \<Rightarrow> bool \<Rightarrow> (error + nat) \<times> state" where
  "extract_pixels s images timing =
     (let (pixels, s1) = alloc s (ListObj []) in
      case deref s1 images of
        ListObj xs \<Rightarrow>
          (case extract_loop s1 pixels xs of
             (Inl e, s2) \<Rightarrow> (Inl e, s2)
           | (Inr u, s2) \<Rightarrow>
               (Inr pixels, if timing then logger_info s2 ''Extract pixels'' else s2))
      | ArrayObj a \<Rightarrow>
          (let (pixels', s2) = alloc s1 (ListObj [images]) in
           (Inr pixels', if timing then logger_info s2 ''Extract pixels'' else s2))
      | NamespaceObj attr \<Rightarrow>
          (case attr of
             None \<Rightarrow> (Inl (AttributeError ''pixels''), s1)
           | Some p \<Rightarrow>
               (let (pixels', s2) = alloc s1 (ListObj [p]) in
                (Inr pixels', if timing then logger_info s2 ''Extract pixels'' else s2)))
      | DatasetObj p \<Rightarrow> (Inl (TypeError (unknown_type_msg (type_name (DatasetObj p)))), s1)
      | OtherObj t \<Rightarrow> (Inl (TypeError (unknown_type_msg (type_name (OtherObj t)))), s1))"

subsection \<open>\<^verbatim>\<open>_minmax_helper\<close>\<close>

text \<open>Keyword arguments are a list of name and value; \<^verbatim>\<open>kwargs.get("bins", 256)\<close> reads it.\<close>

type_synonym kwargs = "(string \<times> int) list"

definition get_bins :: "kwargs \<Rightarrow> int" where
  "get_bins kwargs = (case map_of kwargs ''bins'' of None \<Rightarrow> 256 | Some b \<Rightarrow> b)"

text \<open>
  The source's \<^verbatim>\<open>_minmax_helper\<close> (an Isabelle name cannot start with an underscore).
  \<^verbatim>\<open>astype\<close> and \<^verbatim>\<open>copy\<close> allocate one array each, and the three in-place operators write
  to the second. A value that is not an array has no \<^verbatim>\<open>astype\<close>.
\<close>

definition minmax_helper :: "state \<Rightarrow> nat \<Rightarrow> kwargs \<Rightarrow> (error + nat) \<times> state" where
  "minmax_helper s pixels kwargs =
     (let bins = get_bins kwargs in
      case deref s pixels of
        ArrayObj a \<Rightarrow>
          (case np_max a of
             Inl e \<Rightarrow> (Inl e, s)
           | Inr max_val \<Rightarrow>
               (case np_min a of
                  Inl e \<Rightarrow> (Inl e, s)
                | Inr min_val \<Rightarrow>
                    (let (tmp, s1) = alloc s (ArrayObj (astype a Float32));
                         (normalized_pixels, s2) = alloc s1 (deref s1 tmp);
                         s3 = inplace s2 normalized_pixels fsub (snd min_val);
                         s4 = inplace s3 normalized_pixels fdiv
                                (snd (scalar_sub max_val min_val));
                         s5 = inplace s4 normalized_pixels fmul (Fin (of_int (bins - 1)))
                     in (Inr normalized_pixels, s5))))
      | ListObj xs \<Rightarrow> (Inl (AttributeError ''astype''), s)
      | NamespaceObj p \<Rightarrow> (Inl (AttributeError ''astype''), s)
      | DatasetObj p \<Rightarrow> (Inl (AttributeError ''astype''), s)
      | OtherObj t \<Rightarrow> (Inl (AttributeError ''astype''), s))"

subsection \<open>\<^verbatim>\<open>minmax\<close>\<close>

text \<open>
  \<^verbatim>\<open>for p in pixels\<close>: a list yields its elements, an array yields a new view object for
  each slice along its first axis, and an array of no dimension cannot be iterated over.
\<close>

datatype item = Elem nat | View ndarray

definition py_iter :: "state \<Rightarrow> nat \<Rightarrow> error + item list" where
  "py_iter s p =
     (case deref s p of
        ListObj xs \<Rightarrow> Inr (map Elem xs)
      | ArrayObj a \<Rightarrow>
          (case shape a of
             [] \<Rightarrow> Inl (TypeError ''iteration over a 0-d array'')
           | n # rest \<Rightarrow> Inr (map View (slices a)))
      | NamespaceObj q \<Rightarrow> Inl (TypeError ''object is not iterable'')
      | DatasetObj q \<Rightarrow> Inl (TypeError ''object is not iterable'')
      | OtherObj t \<Rightarrow> Inl (TypeError ''object is not iterable''))"

fun py_next :: "state \<Rightarrow> item \<Rightarrow> nat \<times> state" where
  "py_next s (Elem p) = (p, s)"
| "py_next s (View a) = alloc s (ArrayObj a)"

text \<open>The list comprehension \<^verbatim>\<open>[Normalize._minmax_helper(p, **kwargs) for p in pixels]\<close>.\<close>

fun minmax_loop :: "state \<Rightarrow> item list \<Rightarrow> kwargs \<Rightarrow> (error + nat list) \<times> state" where
  "minmax_loop s [] kwargs = (Inr [], s)"
| "minmax_loop s (it # its) kwargs =
     (let (p, s1) = py_next s it in
      case minmax_helper s1 p kwargs of
        (Inl e, s2) \<Rightarrow> (Inl e, s2)
      | (Inr r, s2) \<Rightarrow>
          (case minmax_loop s2 its kwargs of
             (Inl e, s3) \<Rightarrow> (Inl e, s3)
           | (Inr rs, s3) \<Rightarrow> (Inr (r # rs), s3)))"

text \<open>The result is the pair of the new list and \<^verbatim>\<open>None\<close>.\<close>

definition minmax ::
  "state \<Rightarrow> nat \<Rightarrow> bool \<Rightarrow> kwargs \<Rightarrow> (error + nat \<times> unit option) \<times> state" where
  "minmax s pixels timing kwargs =
     (case py_iter s pixels of
        Inl e \<Rightarrow> (Inl e, s)
      | Inr items \<Rightarrow>
          (case minmax_loop s items kwargs of
             (Inl e, s1) \<Rightarrow> (Inl e, s1)
           | (Inr rs, s1) \<Rightarrow>
               (let (normalized_pixels, s2) = alloc s1 (ListObj rs) in
                (Inr (normalized_pixels, None),
                 if timing then logger_info s2 ''minmax'' else s2))))"

subsection \<open>\<^verbatim>\<open>get_norm\<close>\<close>

text \<open>\<^verbatim>\<open>str.lower\<close> on the letters \<open>A\<close> to \<open>Z\<close>. Python also lowers letters outside ASCII;
  none of them becomes a character of the two registered names, so the lookup below does
  not depend on them.\<close>

definition lower_char :: "char \<Rightarrow> char" where
  "lower_char c =
     (let n = (of_char c :: nat) in if 65 \<le> n \<and> n \<le> 90 then char_of (n + 32) else c)"

definition lower :: "string \<Rightarrow> string" where
  "lower s = map lower_char s"

definition get_norm ::
  "state \<Rightarrow> nat \<Rightarrow> string \<Rightarrow> bool \<Rightarrow> kwargs \<Rightarrow> (error + nat \<times> unit option) \<times> state" where
  "get_norm s pixels norm_type timing kwargs =
     (case extract_pixels s pixels False of
        (Inl e, s1) \<Rightarrow> (Inl e, s1)
      | (Inr pixels', s1) \<Rightarrow>
          (case map_of [(''minmax'', minmax), (''min-max'', minmax)] (lower norm_type) of
             None \<Rightarrow> (Inl (ValueError ''Invalid normalization type''), s1)
           | Some norm_func \<Rightarrow>
               (case norm_func s1 pixels' timing kwargs of
                  (Inl e, s2) \<Rightarrow> (Inl e, s2)
                | (Inr (normalized_pixels, aux), s2) \<Rightarrow>
                    (Inr (normalized_pixels, None),
                     if timing then logger_info s2 ''get_norm'' else s2))))"

section \<open>Notions used in the statements\<close>

text \<open>
  \<open>frame s s'\<close>: every object of the store \<open>s\<close> is still there in \<open>s'\<close>, at its address
  and unchanged; \<open>s'\<close> may hold new objects after them.
\<close>

definition frame :: "state \<Rightarrow> state \<Rightarrow> bool" where
  "frame s s' = (take (length (heap s)) (heap s') = heap s)"

text \<open>The three in-place operations of \<^verbatim>\<open>_minmax_helper\<close> on one element of the \<open>float32\<close>
  copy, in their order: each scalar is converted to \<open>float32\<close> and each result is rounded.\<close>

definition rescale :: "num \<Rightarrow> num \<Rightarrow> num \<Rightarrow> num \<Rightarrow> num" where
  "rescale lo d b x =
     round_to Float32
       (fmul (round_to Float32
                (fdiv (round_to Float32 (fsub x (round_to Float32 lo))) (round_to Float32 d)))
          (round_to Float32 b))"

text \<open>The array that \<^verbatim>\<open>_minmax_helper\<close> builds from \<open>a\<close>, given the two scalars it read
  from \<open>a\<close> and the number of bins (lemma \<open>minmax_helper_array\<close> below).\<close>

definition normalized :: "ndarray \<Rightarrow> scalar \<Rightarrow> scalar \<Rightarrow> int \<Rightarrow> ndarray" where
  "normalized a mx mn bins =
     \<lparr>dtype = Float32, shape = shape a,
      data = map (rescale (snd mn) (snd (scalar_sub mx mn)) (Fin (of_int (bins - 1))))
               (data (astype a Float32))\<rparr>"

text \<open>The same array when the two scalars are the maximum and minimum of \<open>a\<close> itself.\<close>

definition normalize_own :: "ndarray \<Rightarrow> kwargs \<Rightarrow> ndarray" where
  "normalize_own a kwargs = normalized a (projr (np_max a)) (projr (np_min a)) (get_bins kwargs)"

text \<open>The three objects that one round of the loop of \<^verbatim>\<open>minmax\<close> over an array allocates:
  the view, its \<open>float32\<close> copy and the result.\<close>

definition view_objs :: "kwargs \<Rightarrow> ndarray \<Rightarrow> obj list" where
  "view_objs kwargs a = [ArrayObj a, ArrayObj (astype a Float32), ArrayObj (normalize_own a kwargs)]"

text \<open>The address that \<^verbatim>\<open>extract_pixels\<close> takes from an input: the \<^verbatim>\<open>pixels\<close> attribute of a
  namespace, the \<^verbatim>\<open>pixel_array\<close> of a dataset, the input itself otherwise.\<close>

definition pixel_ref :: "state \<Rightarrow> nat \<Rightarrow> nat" where
  "pixel_ref s x =
     (case deref s x of
        NamespaceObj attr \<Rightarrow> (case attr of None \<Rightarrow> x | Some p \<Rightarrow> p)
      | DatasetObj p \<Rightarrow> p
      | ListObj xs \<Rightarrow> x
      | ArrayObj a \<Rightarrow> x
      | OtherObj t \<Rightarrow> x)"

text \<open>The values that a \<open>float32\<close> array can hold: NaN, the infinities, and the rationals
  \<open>m * 2 ^ i / 2 ^ 149\<close> with \<open>\<bar>m\<bar> < 2 ^ 24\<close> and \<open>i < 254\<close>.\<close>

fun is_float32 :: "num \<Rightarrow> bool" where
  "is_float32 (Fin q) =
     list_ex (\<lambda>i. let x = q * 2 ^ 149 / 2 ^ i in of_int \<lfloor>x\<rfloor> = x \<and> \<bar>x\<bar> < 2 ^ 24) [0..<254]"
| "is_float32 x = True"


section \<open>Rounding to \<open>float32\<close> yields \<open>float32\<close> values\<close>

lemma rhe_range: "\<lfloor>x\<rfloor> \<le> round_half_even x \<and> round_half_even x \<le> \<lceil>x\<rceil>"
proof -
  have "of_int \<lfloor>x\<rfloor> < x \<Longrightarrow> \<lfloor>x\<rfloor> + 1 \<le> \<lceil>x\<rceil>"
    by (simp add: less_ceiling_iff add1_zle_eq)
  moreover have "\<lfloor>x\<rfloor> \<le> \<lceil>x\<rceil>" by (rule floor_le_ceiling)
  ultimately show ?thesis
    by (auto simp: round_half_even_def Let_def)
qed

lemma rhe_of_int: "round_half_even (of_int n) = n"
  by (simp add: round_half_even_def)


lemma ulp_index_le: "ulp_index q \<le> 253"
  by (auto simp: ulp_index_def find_Some_iff split: option.splits)

lemma ulp_index_cases:
  "(\<bar>q\<bar> * 2 ^ 149 < 2 ^ (ulp_index q + 24)) \<or>
   (ulp_index q = 253 \<and> 2 ^ (253 + 24) \<le> \<bar>q\<bar> * 2 ^ 149)"
proof (cases "find (\<lambda>i. \<bar>q\<bar> * 2 ^ 149 < 2 ^ (i + 24)) [0..<254]")
  case None
  then have "\<And>x. x \<in> set [0..<254] \<Longrightarrow> \<not> \<bar>q\<bar> * 2 ^ 149 < 2 ^ (x + 24)"
    by (simp only: find_None_iff) blast
  from this[of 253] have "\<not> \<bar>q\<bar> * 2 ^ 149 < 2 ^ (253 + 24)" by simp
  then show ?thesis using None by (simp add: ulp_index_def)
next
  case (Some i)
  then have "\<bar>q\<bar> * 2 ^ 149 < 2 ^ (i + 24)"
    by (auto simp: find_Some_iff)
  then show ?thesis using Some by (simp add: ulp_index_def)
qed

lemma ulp_index_eq:
  assumes "i < 254" and "\<bar>q\<bar> * 2 ^ 149 < 2 ^ (i + 24)"
    and "i = 0 \<or> 2 ^ (i + 23) \<le> \<bar>q\<bar> * 2 ^ 149"
  shows "ulp_index q = i"
proof -
  have "find (\<lambda>i. \<bar>q\<bar> * 2 ^ 149 < 2 ^ (i + 24)) [0..<254] = Some i"
  proof -
    have "\<not> \<bar>q\<bar> * 2 ^ 149 < 2 ^ (j + 24)" if "j < i" for j
    proof -
      from that assms(3) have le: "(2::rat) ^ (i + 23) \<le> \<bar>q\<bar> * 2 ^ 149" by auto
      from that have "j + 24 \<le> i + 23" by simp
      then have "(2::rat) ^ (j + 24) \<le> 2 ^ (i + 23)"
        by (rule power_increasing) simp
      from order_trans[OF this le] show ?thesis by (simp only: not_less)
    qed
    with assms(1,2) show ?thesis
      by (auto simp: find_Some_iff intro!: exI[of _ i])
  qed
  then show ?thesis by (simp add: ulp_index_def)
qed

lemma is_float32I:
  assumes "j < 254" and "\<bar>k\<bar> < 2 ^ 24" and "v * 2 ^ 149 / 2 ^ j = rat_of_int k"
  shows "is_float32 (Fin v)"
proof -
  let ?x = "v * 2 ^ 149 / 2 ^ j"
  have "rat_of_int \<lfloor>?x\<rfloor> = ?x" by (simp only: assms(3) floor_of_int)
  moreover have "\<bar>?x\<bar> < 2 ^ 24"
  proof -
    have "\<bar>rat_of_int k\<bar> < rat_of_int (2 ^ 24)"
      using assms(2) by (simp only: of_int_abs[symmetric] of_int_less_iff)
    then show ?thesis by (simp only: assms(3)) simp
  qed
  moreover have "j \<in> set [0..<254]" using assms(1) by simp
  ultimately show ?thesis
    unfolding is_float32.simps list_ex_iff Let_def by blast
qed

lemma rhe_small:
  assumes "\<bar>x\<bar> < 2 ^ 24"
  shows "\<bar>round_half_even x\<bar> \<le> 2 ^ 24"
proof -
  have "rat_of_int (- (2 ^ 24)) \<le> x" and "x \<le> rat_of_int (2 ^ 24)" using assms by auto
  then have "- (2 ^ 24) \<le> \<lfloor>x\<rfloor>" and "\<lceil>x\<rceil> \<le> 2 ^ 24"
    by (simp_all only: le_floor_iff ceiling_le_iff)
  with rhe_range[of x] show ?thesis by linarith
qed

lemma rhe_big:
  assumes "2 ^ 24 \<le> \<bar>x\<bar>"
  shows "2 ^ 24 \<le> \<bar>round_half_even x\<bar>"
proof -
  have "rat_of_int (2 ^ 24) \<le> x \<or> x \<le> rat_of_int (- (2 ^ 24))" using assms by auto
  then have "2 ^ 24 \<le> \<lfloor>x\<rfloor> \<or> \<lceil>x\<rceil> \<le> - (2 ^ 24)"
    by (simp only: le_floor_iff ceiling_le_iff)
  with rhe_range[of x] show ?thesis by linarith
qed

lemma round32_float32: "is_float32 (round32 q)"
proof -
  define i where "i = ulp_index q"
  define x where "x = q * 2 ^ 149 / 2 ^ i"
  define m where "m = round_half_even x"
  define v :: rat where "v = rat_of_int m * 2 ^ i / 2 ^ 149"
  have r: "round32 q = (if 2 ^ 128 \<le> v then PInf else if v \<le> - (2 ^ 128) then NInf else Fin v)"
    by (simp only: round32_def Let_def i_def x_def m_def v_def)
  have i253: "i \<le> 253" by (simp add: i_def ulp_index_le)
  have absx: "\<bar>x\<bar> = \<bar>q\<bar> * 2 ^ 149 / 2 ^ i"
    by (simp add: x_def abs_mult)
  have absv: "\<bar>v\<bar> = rat_of_int \<bar>m\<bar> * 2 ^ i / 2 ^ 149"
    by (simp add: v_def abs_mult)
  show ?thesis
  proof (cases "2 ^ 128 \<le> v \<or> v \<le> - (2 ^ 128)")
    case True
    then show ?thesis by (auto simp: r)
  next
    case False
    then have r': "round32 q = Fin v" and vb: "\<bar>v\<bar> < 2 ^ 128" by (auto simp: r)
    from vb have mb: "rat_of_int \<bar>m\<bar> * 2 ^ i < 2 ^ 128 * 2 ^ 149"
      by (simp only: absv) (simp add: field_simps)
    from ulp_index_cases[of q]
    have small: "\<bar>x\<bar> < 2 ^ 24"
    proof
      assume "\<bar>q\<bar> * 2 ^ 149 < 2 ^ (ulp_index q + 24)"
      then have "\<bar>q\<bar> * 2 ^ 149 < 2 ^ 24 * 2 ^ i" by (simp only: i_def power_add mult.commute)
      then show ?thesis by (simp only: absx) (simp add: field_simps)
    next
      assume a: "ulp_index q = 253 \<and> 2 ^ (253 + 24) \<le> \<bar>q\<bar> * 2 ^ 149"
      then have i: "i = 253" by (simp add: i_def)
      from a have "2 ^ 24 * 2 ^ i \<le> \<bar>q\<bar> * 2 ^ 149" by (simp only: i power_add mult.commute)
      then have "2 ^ 24 \<le> \<bar>x\<bar>" by (simp only: absx) (simp add: field_simps)
      then have "2 ^ 24 \<le> \<bar>m\<bar>" unfolding m_def by (rule rhe_big)
      then have "rat_of_int (2 ^ 24) \<le> rat_of_int \<bar>m\<bar>" by (simp only: of_int_le_iff)
      then have "rat_of_int (2 ^ 24) * 2 ^ 253 \<le> rat_of_int \<bar>m\<bar> * 2 ^ 253"
        by (rule mult_right_mono) simp
      with mb show ?thesis by (simp add: i)
    qed
    then have mle: "\<bar>m\<bar> \<le> 2 ^ 24" unfolding m_def by (rule rhe_small)
    have vi: "v * 2 ^ 149 / 2 ^ i = rat_of_int m" by (simp add: v_def)
    show ?thesis
    proof (cases "\<bar>m\<bar> < 2 ^ 24")
      case True
      have "i < 254" using i253 by simp
      from is_float32I[OF this True vi] show ?thesis by (simp only: r')
    next
      case False
      with mle have meq: "\<bar>m\<bar> = 2 ^ 24" by simp
      have "i \<noteq> 253"
      proof
        assume "i = 253"
        with mb meq show False by simp
      qed
      with i253 have j: "Suc i < 254" by simp
      from meq have "m = 2 * 2 ^ 23 \<or> m = 2 * (- (2 ^ 23))" by auto
      then obtain k where k: "m = 2 * k" and kb: "\<bar>k\<bar> < 2 ^ 24" by auto
      have "v * 2 ^ 149 / 2 ^ Suc i = rat_of_int k" by (simp add: v_def k)
      from is_float32I[OF j kb this] show ?thesis by (simp only: r')
    qed
  qed
qed

lemma round32_of_int:
  assumes "\<bar>n\<bar> < 2 ^ 24"
  shows "round32 (rat_of_int n) = Fin (rat_of_int n)"
proof -
  define i where "i = ulp_index (rat_of_int n)"
  have "i \<le> 149"
  proof -
    have "rat_of_int \<bar>n\<bar> < rat_of_int (2 ^ 24)" using assms by (simp only: of_int_less_iff)
    then have lt: "\<bar>rat_of_int n\<bar> * 2 ^ 149 < 2 ^ (149 + 24)"
      by (simp add: power_add)
    show ?thesis
    proof (rule ccontr)
      assume "\<not> i \<le> 149"
      then have "149 < i" by simp
      have "find (\<lambda>i. \<bar>rat_of_int n\<bar> * 2 ^ 149 < 2 ^ (i + 24)) [0..<254] \<noteq> None"
        using lt by (simp only: find_None_iff) (auto intro!: exI[of _ 149])
      then obtain j where f: "find (\<lambda>i. \<bar>rat_of_int n\<bar> * 2 ^ 149 < 2 ^ (i + 24)) [0..<254] = Some j"
        by auto
      then have ij: "i = j" by (simp add: i_def ulp_index_def)
      from f have "\<forall>k<j. \<not> \<bar>rat_of_int n\<bar> * 2 ^ 149 < 2 ^ (k + 24)"
        by (auto simp: find_Some_iff)
      with \<open>149 < i\<close> ij lt show False by auto
    qed
  qed
  then obtain d where d: "149 = i + d" using le_Suc_ex by blast
  have x: "rat_of_int n * 2 ^ 149 / 2 ^ i = rat_of_int (n * 2 ^ d)"
    by (simp only: d power_add) simp
  have v: "rat_of_int (n * 2 ^ d) * 2 ^ i / 2 ^ 149 = rat_of_int n"
    by (simp only: d power_add) simp
  have b: "\<bar>rat_of_int n\<bar> < 2 ^ 128"
  proof -
    have "rat_of_int \<bar>n\<bar> < rat_of_int (2 ^ 24)" using assms by (simp only: of_int_less_iff)
    then show ?thesis by simp
  qed
  have "round32 (rat_of_int n) =
          (if 2 ^ 128 \<le> rat_of_int n then PInf
           else if rat_of_int n \<le> - (2 ^ 128) then NInf else Fin (rat_of_int n))"
    by (simp only: round32_def Let_def i_def[symmetric] x rhe_of_int v)
  with b show ?thesis by auto
qed

lemma round32_numeral:
  "numeral k < (2 ^ 24 :: int) \<Longrightarrow> round32 (numeral k) = Fin (numeral k)"
  "numeral k < (2 ^ 24 :: int) \<Longrightarrow> round32 (- numeral k) = Fin (- numeral k)"
  "round32 0 = Fin 0" "round32 1 = Fin 1" "round32 (- 1) = Fin (- 1)"
  using round32_of_int[of "numeral k"] round32_of_int[of "- numeral k"]
    round32_of_int[of 0] round32_of_int[of 1] round32_of_int[of "- 1"]
  by simp_all


lemma rhe_nearest:
  assumes "2 * \<bar>x - rat_of_int m\<bar> < 1"
  shows "round_half_even x = m"
proof -
  from assms have a: "rat_of_int m - 1 / 2 < x" by (simp add: abs_if split: if_splits)
  from assms have b: "x < rat_of_int m + 1 / 2" by (simp add: abs_if split: if_splits)
  have "\<lfloor>x\<rfloor> = m \<or> \<lfloor>x\<rfloor> = m - 1"
  proof -
    have "rat_of_int (m - 1) \<le> x" using a by simp
    then have "m - 1 \<le> \<lfloor>x\<rfloor>" by (simp only: le_floor_iff)
    moreover have "x < rat_of_int (m + 1)" using b by simp
    then have "\<lfloor>x\<rfloor> < m + 1" by (simp only: floor_less_iff)
    ultimately show ?thesis by linarith
  qed
  then show ?thesis
  proof
    assume f: "\<lfloor>x\<rfloor> = m"
    with b show ?thesis by (simp add: round_half_even_def Let_def)
  next
    assume f: "\<lfloor>x\<rfloor> = m - 1"
    with a show ?thesis by (simp add: round_half_even_def Let_def)
  qed
qed

lemma round32_nearest:
  assumes "i < 254" and "\<bar>q\<bar> * 2 ^ 149 < 2 ^ (i + 24)"
    and "i = 0 \<or> 2 ^ (i + 23) \<le> \<bar>q\<bar> * 2 ^ 149"
    and "2 * \<bar>q * 2 ^ 149 / 2 ^ i - rat_of_int m\<bar> < 1"
    and "\<bar>rat_of_int m * 2 ^ i / 2 ^ 149\<bar> < 2 ^ 128"
  shows "round32 q = Fin (rat_of_int m * 2 ^ i / 2 ^ 149)"
proof -
  have i: "ulp_index q = i" using assms(1-3) by (rule ulp_index_eq)
  have m: "round_half_even (q * 2 ^ 149 / 2 ^ i) = m" using assms(4) by (rule rhe_nearest)
  have "round32 q =
     (if 2 ^ 128 \<le> rat_of_int m * 2 ^ i / 2 ^ 149 then PInf
      else if rat_of_int m * 2 ^ i / 2 ^ 149 \<le> - (2 ^ 128) then NInf
      else Fin (rat_of_int m * 2 ^ i / 2 ^ 149))"
    by (simp only: round32_def Let_def i m)
  with assms(5) show ?thesis by auto
qed

text \<open>A \<open>float32\<close> value is rounded to itself.\<close>

lemma ulp_index_least:
  assumes "j < 254" and "\<bar>q\<bar> * 2 ^ 149 < 2 ^ (j + 24)"
  shows "ulp_index q \<le> j"
proof -
  have "find (\<lambda>i. \<bar>q\<bar> * 2 ^ 149 < 2 ^ (i + 24)) [0..<254] \<noteq> None"
  proof
    assume "find (\<lambda>i. \<bar>q\<bar> * 2 ^ 149 < 2 ^ (i + 24)) [0..<254] = None"
    then have "\<And>x. x \<in> set [0..<254] \<Longrightarrow> \<not> \<bar>q\<bar> * 2 ^ 149 < 2 ^ (x + 24)"
      by (simp only: find_None_iff) blast
    from this[of j] assms show False by simp
  qed
  then obtain i where f: "find (\<lambda>i. \<bar>q\<bar> * 2 ^ 149 < 2 ^ (i + 24)) [0..<254] = Some i"
    by auto
  then have i: "ulp_index q = i" by (simp add: ulp_index_def)
  from f have "\<forall>k<i. \<not> \<bar>q\<bar> * 2 ^ 149 < 2 ^ (k + 24)"
    by (auto simp: find_Some_iff)
  with assms(2) have "\<not> j < i" by blast
  with i show ?thesis by simp
qed

lemma round32_fixed:
  assumes "is_float32 (Fin q)"
  shows "round32 q = Fin q"
proof -
  from assms have "\<exists>j \<in> set [0..<254].
      rat_of_int \<lfloor>q * 2 ^ 149 / 2 ^ j\<rfloor> = q * 2 ^ 149 / 2 ^ j \<and> \<bar>q * 2 ^ 149 / 2 ^ j\<bar> < 2 ^ 24"
    unfolding is_float32.simps list_ex_iff Let_def .
  then obtain j where jin: "j \<in> set [0..<254]"
    and int: "rat_of_int \<lfloor>q * 2 ^ 149 / 2 ^ j\<rfloor> = q * 2 ^ 149 / 2 ^ j"
    and small: "\<bar>q * 2 ^ 149 / 2 ^ j\<bar> < 2 ^ 24"
    by blast
  from jin have j: "j < 254" by simp
  define k where "k = \<lfloor>q * 2 ^ 149 / 2 ^ j\<rfloor>"
  have qk: "q * 2 ^ 149 = rat_of_int k * 2 ^ j"
    unfolding k_def int by simp
  have "\<bar>q\<bar> * 2 ^ 149 / 2 ^ j < 2 ^ 24"
    using small by (simp add: abs_mult)
  then have "\<bar>q\<bar> * 2 ^ 149 < 2 ^ 24 * 2 ^ j"
    by (simp add: field_simps)
  then have pj: "\<bar>q\<bar> * 2 ^ 149 < 2 ^ (j + 24)"
    by (simp only: power_add mult.commute)
  define i where "i = ulp_index q"
  have "i \<le> j" unfolding i_def using j pj by (rule ulp_index_least)
  then obtain d where d: "j = i + d" using le_Suc_ex by blast
  have x: "q * 2 ^ 149 / 2 ^ i = rat_of_int (k * 2 ^ d)"
    by (simp only: qk d power_add) simp
  have v: "rat_of_int (k * 2 ^ d) * 2 ^ i / 2 ^ 149 = q"
  proof -
    have "rat_of_int (k * 2 ^ d) * 2 ^ i = q * 2 ^ 149"
      by (simp only: qk d power_add) simp
    then show ?thesis by simp
  qed
  have b: "\<bar>q\<bar> < 2 ^ 128"
  proof -
    have "(2::rat) ^ (j + 24) \<le> 2 ^ (128 + 149)"
      by (rule power_increasing) (use j in simp_all)
    with pj have "\<bar>q\<bar> * 2 ^ 149 < 2 ^ 128 * 2 ^ 149" by (simp only: power_add)
    then show ?thesis by simp
  qed
  have "round32 q = (if 2 ^ 128 \<le> q then PInf else if q \<le> - (2 ^ 128) then NInf else Fin q)"
    by (simp only: round32_def Let_def i_def[symmetric] x rhe_of_int v)
  with b show ?thesis by auto
qed

text \<open>The roundings that the computations below meet.\<close>

lemma round32_third: "round32 (1 / 3) = Fin (11184811 / 33554432)"
  using round32_nearest[of 124 "1 / 3" 11184811] by simp

lemma round32_two_thirds: "round32 (2 / 3) = Fin (11184811 / 16777216)"
  using round32_nearest[of 125 "2 / 3" 11184811] by simp

lemma round32_near_85: "round32 (2852126805 / 33554432) = Fin 85"
  using round32_nearest[of 132 "2852126805 / 33554432" 11141120] by simp

lemma round32_near_170: "round32 (2852126805 / 16777216) = Fin 170"
  using round32_nearest[of 133 "2852126805 / 16777216" 11141120] by simp

lemma round32_tenth: "round32 (1 / 10) = Fin (13421773 / 134217728)"
  using round32_nearest[of 122 "1 / 10" 13421773] by simp

text \<open>\<open>1/10\<close> is not a \<open>float32\<close> value.\<close>

lemma tenth_not_float32: "\<not> is_float32 (Fin (1 / 10))"
  using round32_fixed[of "1 / 10"] by (auto simp: round32_tenth)

lemma is_float32_round_to: "is_float32 (round_to Float32 x)"
  by (cases x) (simp_all add: round32_float32)

lemma is_float32_astype: "x \<in> set (data (astype a Float32)) \<Longrightarrow> is_float32 x"
  by (auto simp: astype_def is_float32_round_to)

lemma is_float32_rescale: "is_float32 (rescale lo d b x)"
  unfolding rescale_def by (rule is_float32_round_to)


section \<open>The store is only extended\<close>

lemma frame_refl: "frame s s"
  by (simp add: frame_def)

lemma frame_length: "frame s s' \<Longrightarrow> length (heap s) \<le> length (heap s')"
proof -
  assume "frame s s'"
  then have "length (take (length (heap s)) (heap s')) = length (heap s)"
    by (simp add: frame_def)
  then show ?thesis by (simp add: min_def split: if_splits)
qed

lemma frame_trans: "frame s s1 \<Longrightarrow> frame s1 s2 \<Longrightarrow> frame s s2"
proof -
  assume a: "frame s s1" and b: "frame s1 s2"
  have le: "length (heap s) \<le> length (heap s1)" using a by (rule frame_length)
  have "take (length (heap s)) (heap s2) = take (length (heap s)) (take (length (heap s1)) (heap s2))"
    using le by (simp add: min_def)
  also have "\<dots> = take (length (heap s)) (heap s1)" using b by (simp add: frame_def)
  also have "\<dots> = heap s" using a by (simp add: frame_def)
  finally show ?thesis by (simp add: frame_def)
qed

lemma frame_deref: "frame s s' \<Longrightarrow> a < length (heap s) \<Longrightarrow> deref s' a = deref s a"
proof -
  assume f: "frame s s'" and a: "a < length (heap s)"
  have "heap s ! a = take (length (heap s)) (heap s') ! a" using f by (simp add: frame_def)
  also have "\<dots> = heap s' ! a" using a by simp
  finally show ?thesis using a frame_length[OF f] by (simp add: deref_def)
qed

lemma frame_alloc: "frame s (snd (alloc s ob))"
  by (simp add: frame_def alloc_def)

lemma frame_logger_info: "frame s (logger_info s m)"
  by (simp add: frame_def logger_info_def)

lemma frame_store: "frame s0 s \<Longrightarrow> length (heap s0) \<le> a \<Longrightarrow> frame s0 (store s a ob)"
  by (simp add: frame_def store_def)

lemma length_store: "length (heap (store s a ob)) = length (heap s)"
  by (simp add: store_def)

lemma frame_list_append: "frame s0 s \<Longrightarrow> length (heap s0) \<le> l \<Longrightarrow> frame s0 (list_append s l x)"
  by (simp add: list_append_def frame_store split: obj.splits)

lemma length_list_append: "length (heap (list_append s l x)) = length (heap s)"
  by (simp add: list_append_def length_store split: obj.splits)

lemma frame_inplace: "frame s0 s \<Longrightarrow> length (heap s0) \<le> a \<Longrightarrow> frame s0 (inplace s a op v)"
  by (simp add: inplace_def frame_store split: obj.splits)

lemma frame_extract_loop:
  "frame s0 s \<Longrightarrow> length (heap s0) \<le> pixels \<Longrightarrow> frame s0 (snd (extract_loop s pixels xs))"
proof (induction xs arbitrary: s)
  case Nil
  then show ?case by simp
next
  case (Cons x xs)
  then show ?case
    by (cases "deref s x") (simp_all add: frame_list_append split: option.splits)
qed

lemma frame_extract_pixels: "frame s (snd (extract_pixels s images timing))"
proof -
  obtain l s1 where al: "alloc s (ListObj []) = (l, s1)" by (cases "alloc s (ListObj [])")
  have f1: "frame s s1" using frame_alloc[of s "ListObj []"] al by simp
  have l: "length (heap s) \<le> l" using al by (auto simp: alloc_def)
  have fl: "\<And>xs. frame s (snd (extract_loop s1 l xs))"
    using f1 l by (rule frame_extract_loop)
  have fa: "\<And>ob. frame s (snd (alloc s1 ob))"
    using f1 frame_alloc frame_trans by blast
  show ?thesis
  proof (cases "deref s1 images")
    case (ListObj xs)
    then show ?thesis using al fl[of xs] 
      by (auto simp: extract_pixels_def split: prod.splits sum.splits intro: frame_trans frame_logger_info)
  next
    case (ArrayObj a)
    then show ?thesis using al fa[of "ListObj [images]"]
      by (auto simp: extract_pixels_def split: prod.splits intro: frame_trans frame_logger_info)
  next
    case (NamespaceObj attr)
    show ?thesis
    proof (cases attr)
      case None
      then show ?thesis using NamespaceObj al f1 by (simp add: extract_pixels_def)
    next
      case (Some p)
      then show ?thesis using NamespaceObj al fa[of "ListObj [p]"]
        by (auto simp: extract_pixels_def split: prod.splits intro: frame_trans frame_logger_info)
    qed
  next
    case (DatasetObj p)
    then show ?thesis using al f1 by (simp add: extract_pixels_def)
  next
    case (OtherObj t)
    then show ?thesis using al f1 by (simp add: extract_pixels_def)
  qed
qed


lemma np_max_nonempty: "data a \<noteq> [] \<Longrightarrow> np_max a = Inr (dtype a, foldl fmax2 (hd (data a)) (tl (data a)))"
  by (cases "data a") (simp_all add: np_max_def)

lemma np_min_nonempty: "data a \<noteq> [] \<Longrightarrow> np_min a = Inr (dtype a, foldl fmin2 (hd (data a)) (tl (data a)))"
  by (cases "data a") (simp_all add: np_min_def)

lemma np_max_empty: "data a = [] \<Longrightarrow> np_max a = Inl (ValueError ''zero-size array to reduction operation maximum which has no identity'')"
  by (simp add: np_max_def)

lemma minmax_helper_array:
  assumes "deref s p = ArrayObj a" and "np_max a = Inr mx" and "np_min a = Inr mn"
  shows "minmax_helper s p kw =
           (Inr (Suc (length (heap s))),
            s\<lparr>heap := heap s @ [ArrayObj (astype a Float32),
                                 ArrayObj (normalized a mx mn (get_bins kw))]\<rparr>)"
  using assms
  by (cases a)
     (simp add: minmax_helper_def alloc_def deref_def inplace_def store_def astype_def
        normalized_def rescale_def[abs_def] Let_def nth_append list_update_append)

lemma minmax_helper_empty:
  assumes "deref s p = ArrayObj a" and "data a = []"
  shows "minmax_helper s p kw =
           (Inl (ValueError ''zero-size array to reduction operation maximum which has no identity''), s)"
  using assms by (simp add: minmax_helper_def np_max_empty)

lemma minmax_helper_not_array:
  assumes "\<forall>a. deref s p \<noteq> ArrayObj a"
  shows "minmax_helper s p kw = (Inl (AttributeError ''astype''), s)"
  using assms by (cases "deref s p") (simp_all add: minmax_helper_def)

lemma frame_minmax_helper: "frame s (snd (minmax_helper s p kw))"
proof (cases "\<exists>a. deref s p = ArrayObj a")
  case True
  then obtain a where a: "deref s p = ArrayObj a" by blast
  show ?thesis
  proof (cases "data a = []")
    case True
    then show ?thesis using a by (simp add: minmax_helper_empty frame_refl)
  next
    case False
    then show ?thesis
      using minmax_helper_array[OF a np_max_nonempty np_min_nonempty, of kw]
      by (simp add: frame_def)
  qed
next
  case False
  then show ?thesis by (simp add: minmax_helper_not_array frame_refl)
qed

lemma minmax_helper_fresh:
  "fst (minmax_helper s p kw) = Inr r \<Longrightarrow> r = Suc (length (heap s))"
proof (cases "\<exists>a. deref s p = ArrayObj a")
  case True
  assume r: "fst (minmax_helper s p kw) = Inr r"
  from True obtain a where a: "deref s p = ArrayObj a" by blast
  show ?thesis
  proof (cases "data a = []")
    case True
    then show ?thesis using a r by (simp add: minmax_helper_empty)
  next
    case False
    then show ?thesis
      using minmax_helper_array[OF a np_max_nonempty np_min_nonempty, of kw] r
      by simp
  qed
next
  case False
  assume r: "fst (minmax_helper s p kw) = Inr r"
  from False show ?thesis using r by (simp add: minmax_helper_not_array)
qed


section \<open>Evaluation on concrete inputs\<close>

text \<open>The definitions that a run of \<^verbatim>\<open>_minmax_helper\<close> on a given store unfolds.\<close>

lemmas eval_defs = minmax_helper_def deref_def np_max_def np_min_def alloc_def get_bins_def Let_def
    inplace_def store_def astype_def scalar_sub_def wrap_int_def fmax2_def fmin2_def
    round32_numeral round32_third round32_two_thirds round32_near_85 round32_near_170

text \<open>
  Claim C5. For the input \<open>A = [[0, 10], [20, 30]]\<close> and \<open>bins = 256\<close>, min-max
  normalization returns \<open>[[0, 85], [170, 255]]\<close>, each element \<open>v\<close> being
  \<open>(v - 0) / (30 - 0) * 255\<close>. The array is the only object of the store; the call
  adds the \<^verbatim>\<open>astype\<close> copy and the result, whose address it returns.
\<close>

theorem minmax_helper_concrete_scenario:
  "minmax_helper
     \<lparr>heap = [ArrayObj \<lparr>dtype = Int64, shape = [2, 2], data = [Fin 0, Fin 10, Fin 20, Fin 30]\<rparr>],
      logged = []\<rparr> 0 [(''bins'', 256)] =
   (Inr 2,
    \<lparr>heap = [ArrayObj \<lparr>dtype = Int64, shape = [2, 2], data = [Fin 0, Fin 10, Fin 20, Fin 30]\<rparr>,
             ArrayObj \<lparr>dtype = Float32, shape = [2, 2], data = [Fin 0, Fin 10, Fin 20, Fin 30]\<rparr>,
             ArrayObj \<lparr>dtype = Float32, shape = [2, 2], data = [Fin 0, Fin 85, Fin 170, Fin 255]\<rparr>],
     logged = []\<rparr>)"
  by (simp add: eval_defs)

text \<open>
  Claim C1 says that for every numeric array with \<open>min \<noteq> max\<close> and every \<open>bins > 1\<close> the
  result has minimum \<open>0\<close> and maximum \<open>bins - 1\<close>. The divisor \<^verbatim>\<open>max_val - min_val\<close> is
  computed on two scalars of the array's own element type. For the 16-bit signed array
  \<open>[-32768, 32767]\<close> the difference \<open>65535\<close> wraps around to \<open>-1\<close>, and the result is
  \<open>[0, -16711425]\<close>: its minimum is \<open>-16711425\<close> and its maximum \<open>0\<close>, not \<open>0\<close> and \<open>255\<close>.
\<close>

theorem minmax_helper_int16_overflow:
  "minmax_helper
     \<lparr>heap = [ArrayObj \<lparr>dtype = Int16, shape = [2], data = [Fin (- 32768), Fin 32767]\<rparr>],
      logged = []\<rparr> 0 [(''bins'', 256)] =
   (Inr 2,
    \<lparr>heap = [ArrayObj \<lparr>dtype = Int16, shape = [2], data = [Fin (- 32768), Fin 32767]\<rparr>,
             ArrayObj \<lparr>dtype = Float32, shape = [2], data = [Fin (- 32768), Fin 32767]\<rparr>,
             ArrayObj \<lparr>dtype = Float32, shape = [2], data = [Fin 0, Fin (- 16711425)]\<rparr>],
     logged = []\<rparr>)"
  by (simp add: eval_defs)

text \<open>
  Claim C2. Min-max normalization is not idempotent: with \<open>bins = 1\<close> on both
  applications, \<open>[0, 1]\<close> is normalized to \<open>[0, 0]\<close>, and normalizing that array again
  divides zero by zero and gives \<open>[NaN, NaN]\<close>.
\<close>

theorem minmax_helper_not_idempotent:
  "minmax_helper
     \<lparr>heap = [ArrayObj \<lparr>dtype = Int64, shape = [2], data = [Fin 0, Fin 1]\<rparr>], logged = []\<rparr>
     0 [(''bins'', 1)] =
   (Inr 2,
    \<lparr>heap = [ArrayObj \<lparr>dtype = Int64, shape = [2], data = [Fin 0, Fin 1]\<rparr>,
             ArrayObj \<lparr>dtype = Float32, shape = [2], data = [Fin 0, Fin 1]\<rparr>,
             ArrayObj \<lparr>dtype = Float32, shape = [2], data = [Fin 0, Fin 0]\<rparr>],
     logged = []\<rparr>) \<and>
   minmax_helper
     \<lparr>heap = [ArrayObj \<lparr>dtype = Int64, shape = [2], data = [Fin 0, Fin 1]\<rparr>,
             ArrayObj \<lparr>dtype = Float32, shape = [2], data = [Fin 0, Fin 1]\<rparr>,
             ArrayObj \<lparr>dtype = Float32, shape = [2], data = [Fin 0, Fin 0]\<rparr>],
      logged = []\<rparr>
     2 [(''bins'', 1)] =
   (Inr 4,
    \<lparr>heap = [ArrayObj \<lparr>dtype = Int64, shape = [2], data = [Fin 0, Fin 1]\<rparr>,
             ArrayObj \<lparr>dtype = Float32, shape = [2], data = [Fin 0, Fin 1]\<rparr>,
             ArrayObj \<lparr>dtype = Float32, shape = [2], data = [Fin 0, Fin 0]\<rparr>,
             ArrayObj \<lparr>dtype = Float32, shape = [2], data = [Fin 0, Fin 0]\<rparr>,
             ArrayObj \<lparr>dtype = Float32, shape = [2], data = [NaN, NaN]\<rparr>],
     logged = []\<rparr>) \<and>
   ArrayObj \<lparr>dtype = Float32, shape = [2], data = [NaN, NaN]\<rparr> \<noteq>
   ArrayObj \<lparr>dtype = Float32, shape = [2], data = [Fin 0, Fin 0]\<rparr>"
  by (simp add: eval_defs)

section \<open>Dispatch on the name of the normalization\<close>

lemma lower_MinMax: "lower ''MinMax'' = ''minmax''" by code_simp
lemma lower_MIN_MAX: "lower ''MIN-MAX'' = ''min-max''" by code_simp
lemma lower_minmax: "lower ''minmax'' = ''minmax''" by code_simp
lemma lower_min_max: "lower ''min-max'' = ''min-max''" by code_simp

lemma registry_minmax:
  "map_of [(''minmax'', minmax), (''min-max'', minmax)] ''minmax'' = Some minmax"
  by simp

lemma registry_min_max:
  "map_of [(''minmax'', minmax), (''min-max'', minmax)] ''min-max'' = Some minmax"
  by simp

lemma lower_bogus: "lower ''bogus'' = ''bogus''" by code_simp

text \<open>
  Claim C3 says that \<^verbatim>\<open>get_norm(x, "bogus")\<close> fails with the error of an invalid
  normalization type for every \<open>x\<close>. \<^verbatim>\<open>get_norm\<close> extracts the pixels before it looks the
  name up, so for the integer \<open>42\<close> the \<^verbatim>\<open>TypeError\<close> of \<^verbatim>\<open>extract_pixels\<close> is raised
  instead.
\<close>

theorem get_norm_bogus_unsupported_input:
  "fst (get_norm \<lparr>heap = [OtherObj ''int''], logged = []\<rparr> 0 ''bogus'' False []) =
     Inl (TypeError (unknown_type_msg ''int'')) \<and>
   fst (get_norm \<lparr>heap = [OtherObj ''int''], logged = []\<rparr> 0 ''bogus'' False []) \<noteq>
     Inl (ValueError ''Invalid normalization type'')"
  by (simp add: get_norm_def extract_pixels_def alloc_def deref_def)

text \<open>
  Claim C3, amended. For a name that is neither \<open>minmax\<close> nor \<open>min-max\<close> after lowering,
  \<^verbatim>\<open>get_norm\<close> always fails: with the error of \<^verbatim>\<open>extract_pixels\<close> when the extraction
  fails, and with \<^verbatim>\<open>ValueError("Invalid normalization type")\<close> for every input that
  \<^verbatim>\<open>extract_pixels\<close> accepts.
\<close>

theorem get_norm_invalid_type:
  assumes "lower norm_type \<noteq> ''minmax''" and "lower norm_type \<noteq> ''min-max''"
  shows "fst (get_norm s images norm_type timing kwargs) =
           (case fst (extract_pixels s images False) of
              Inl e \<Rightarrow> Inl e
            | Inr pixels \<Rightarrow> Inl (ValueError ''Invalid normalization type''))"
  using assms by (simp add: get_norm_def split: prod.splits sum.splits)

theorem get_norm_invalid_type_witness:
  "lower ''bogus'' \<noteq> ''minmax'' \<and> lower ''bogus'' \<noteq> ''min-max'' \<and>
   fst (get_norm \<lparr>heap = [ArrayObj \<lparr>dtype = UInt8, shape = [2], data = [Fin 1, Fin 2]\<rparr>], logged = []\<rparr>
          0 ''bogus'' False []) = Inl (ValueError ''Invalid normalization type'')"
  using get_norm_invalid_type[of "''bogus''" "\<lparr>heap = [ArrayObj \<lparr>dtype = UInt8, shape = [2], data = [Fin 1, Fin 2]\<rparr>], logged = []\<rparr>" 0 False "[]"]
  by (simp add: lower_bogus extract_pixels_def alloc_def deref_def)

section \<open>Reading the store after an allocation\<close>

lemma deref_alloc_old: "a < length (heap s) \<Longrightarrow> deref (snd (alloc s ob)) a = deref s a"
  by (simp add: deref_def alloc_def nth_append)

section \<open>Properties of \<^verbatim>\<open>_minmax_helper\<close> on every array\<close>

lemma deref_new_pair:
  "deref (s\<lparr>heap := heap s @ [x, y]\<rparr>) (Suc (length (heap s))) = y"
  "deref (s\<lparr>heap := heap s @ [x, y]\<rparr>) (length (heap s)) = x"
  by (simp_all add: deref_def nth_append)

text \<open>
  Claim C9. Whatever the element type of the input array, the array that
  \<^verbatim>\<open>_minmax_helper\<close> returns has the element type \<open>float32\<close> (and the shape of the
  input), and each of its elements is a \<open>float32\<close> value. The conversion comes before
  the rescaling: the call leaves the input converted to \<open>float32\<close> at the first new
  address, every element of that copy is a \<open>float32\<close> value, and the result is the
  rescaling of the elements of that copy with the maximum and minimum that were read
  from the input. An array without elements has no result: \<^verbatim>\<open>np.max\<close> raises.
\<close>

theorem minmax_helper_output_float32:
  assumes "deref s p = ArrayObj a"
  shows "(data a = [] \<longrightarrow>
            minmax_helper s p kw =
              (Inl (ValueError ''zero-size array to reduction operation maximum which has no identity''), s)) \<and>
         (data a \<noteq> [] \<longrightarrow>
            (\<exists>r s' out mx mn. minmax_helper s p kw = (Inr r, s') \<and>
               deref s' (length (heap s)) = ArrayObj (astype a Float32) \<and>
               dtype (astype a Float32) = Float32 \<and>
               (\<forall>x \<in> set (data (astype a Float32)). is_float32 x) \<and>
               np_max a = Inr mx \<and> np_min a = Inr mn \<and>
               deref s' r = ArrayObj out \<and> dtype out = Float32 \<and> shape out = shape a \<and>
               data out = map (rescale (snd mn) (snd (scalar_sub mx mn))
                                 (Fin (of_int (get_bins kw - 1))))
                            (data (astype a Float32)) \<and>
               length (data out) = length (data a) \<and>
               (\<forall>x \<in> set (data out). is_float32 x)))"
proof (intro conjI impI)
  assume "data a = []"
  then show "minmax_helper s p kw =
      (Inl (ValueError ''zero-size array to reduction operation maximum which has no identity''), s)"
    using assms by (rule minmax_helper_empty[rotated])
next
  assume ne: "data a \<noteq> []"
  let ?mx = "(dtype a, foldl fmax2 (hd (data a)) (tl (data a)))"
  let ?mn = "(dtype a, foldl fmin2 (hd (data a)) (tl (data a)))"
  let ?out = "normalized a ?mx ?mn (get_bins kw)"
  let ?s' = "s\<lparr>heap := heap s @ [ArrayObj (astype a Float32), ArrayObj ?out]\<rparr>"
  have run: "minmax_helper s p kw = (Inr (Suc (length (heap s))), ?s')"
    using minmax_helper_array[OF assms np_max_nonempty[OF ne] np_min_nonempty[OF ne]] .
  have c: "deref ?s' (length (heap s)) = ArrayObj (astype a Float32)"
    by (rule deref_new_pair)
  have o: "deref ?s' (Suc (length (heap s))) = ArrayObj ?out"
    by (rule deref_new_pair)
  have t: "dtype (astype a Float32) = Float32"
    by (simp add: astype_def)
  have f: "\<forall>x \<in> set (data (astype a Float32)). is_float32 x"
    by (simp add: is_float32_astype)
  have d: "dtype ?out = Float32 \<and> shape ?out = shape a \<and>
           data ?out = map (rescale (snd ?mn) (snd (scalar_sub ?mx ?mn))
                              (Fin (of_int (get_bins kw - 1))))
                         (data (astype a Float32)) \<and>
           length (data ?out) = length (data a)"
    by (simp add: normalized_def astype_def)
  have g: "\<forall>x \<in> set (data ?out). is_float32 x"
    by (auto simp: normalized_def is_float32_rescale)
  show "\<exists>r s' out mx mn. minmax_helper s p kw = (Inr r, s') \<and>
               deref s' (length (heap s)) = ArrayObj (astype a Float32) \<and>
               dtype (astype a Float32) = Float32 \<and>
               (\<forall>x \<in> set (data (astype a Float32)). is_float32 x) \<and>
               np_max a = Inr mx \<and> np_min a = Inr mn \<and>
               deref s' r = ArrayObj out \<and> dtype out = Float32 \<and> shape out = shape a \<and>
               data out = map (rescale (snd mn) (snd (scalar_sub mx mn))
                                 (Fin (of_int (get_bins kw - 1))))
                            (data (astype a Float32)) \<and>
               length (data out) = length (data a) \<and>
               (\<forall>x \<in> set (data out). is_float32 x)"
    using run c o t f d g np_max_nonempty[OF ne] np_min_nonempty[OF ne] by blast
qed

text \<open>On the \<open>float64\<close> array \<open>[1/10, 3]\<close>, whose first element is not a \<open>float32\<close> value,
  the copy holds \<open>13421773 / 2 ^ 27\<close> in its place; the array without elements raises.\<close>

theorem minmax_helper_output_float32_witness:
  "(\<exists>r s' out.
      minmax_helper
        \<lparr>heap = [ArrayObj \<lparr>dtype = Float64, shape = [2], data = [Fin (1 / 10), Fin 3]\<rparr>], logged = []\<rparr>
        0 [] = (Inr r, s') \<and>
      deref s' 1 =
        ArrayObj \<lparr>dtype = Float32, shape = [2], data = [Fin (13421773 / 134217728), Fin 3]\<rparr> \<and>
      \<not> is_float32 (Fin (1 / 10)) \<and>
      is_float32 (Fin (13421773 / 134217728)) \<and> is_float32 (Fin 3) \<and>
      deref s' r = ArrayObj out \<and> dtype out = Float32 \<and> shape out = [2] \<and>
      length (data out) = 2 \<and> (\<forall>x \<in> set (data out). is_float32 x)) \<and>
   minmax_helper \<lparr>heap = [ArrayObj \<lparr>dtype = Float64, shape = [0], data = []\<rparr>], logged = []\<rparr> 0 [] =
     (Inl (ValueError ''zero-size array to reduction operation maximum which has no identity''),
      \<lparr>heap = [ArrayObj \<lparr>dtype = Float64, shape = [0], data = []\<rparr>], logged = []\<rparr>)"
proof -
  have h1: "deref \<lparr>heap = [ArrayObj \<lparr>dtype = Float64, shape = [2], data = [Fin (1 / 10), Fin 3]\<rparr>],
                    logged = []\<rparr> 0 =
            ArrayObj \<lparr>dtype = Float64, shape = [2], data = [Fin (1 / 10), Fin 3]\<rparr>"
    by (simp add: deref_def)
  have h2: "deref \<lparr>heap = [ArrayObj \<lparr>dtype = Float64, shape = [0], data = []\<rparr>], logged = []\<rparr> 0 =
            ArrayObj \<lparr>dtype = Float64, shape = [0], data = []\<rparr>"
    by (simp add: deref_def)
  have a: "astype \<lparr>dtype = Float64, shape = [2], data = [Fin (1 / 10), Fin 3]\<rparr> Float32 =
             \<lparr>dtype = Float32, shape = [2], data = [Fin (13421773 / 134217728), Fin 3]\<rparr>"
    by (simp add: astype_def round32_tenth round32_numeral)
  show ?thesis
    using minmax_helper_output_float32[OF h1, of "[]"] minmax_helper_output_float32[OF h2, of "[]"]
    unfolding a by (auto simp: numeral_2_eq_2 tenth_not_float32 simp del: is_float32.simps)
qed

subsection \<open>Constant arrays\<close>













section \<open>\<^verbatim>\<open>minmax\<close> called on one array\<close>

lemma minmax_helper_nonempty:
  assumes "deref s p = ArrayObj a" and "data a \<noteq> []"
  shows "minmax_helper s p kw =
           (Inr (Suc (length (heap s))),
            s\<lparr>heap := heap s @ [ArrayObj (astype a Float32), ArrayObj (normalize_own a kw)]\<rparr>)"
  using minmax_helper_array[OF assms(1) np_max_nonempty[OF assms(2)] np_min_nonempty[OF assms(2)], of kw]
  by (simp add: normalize_own_def np_max_nonempty[OF assms(2)] np_min_nonempty[OF assms(2)])

lemma minmax_loop_views:
  assumes "\<forall>a\<in>set as. data a \<noteq> []"
  shows "minmax_loop s (map View as) kw =
           (Inr (map (\<lambda>j. length (heap s) + 3 * j + 2) [0..<length as]),
            s\<lparr>heap := heap s @ concat (map (view_objs kw) as)\<rparr>)"
  using assms
proof (induction as arbitrary: s)
  case Nil
  show ?case by simp
next
  case (Cons a as)
  let ?s1 = "s\<lparr>heap := heap s @ [ArrayObj a]\<rparr>"
  let ?s2 = "?s1\<lparr>heap := heap ?s1 @ [ArrayObj (astype a Float32), ArrayObj (normalize_own a kw)]\<rparr>"
  have d: "deref ?s1 (length (heap s)) = ArrayObj a"
    by (simp add: deref_def)
  have ne: "data a \<noteq> []" using Cons.prems by simp
  have h: "minmax_helper ?s1 (length (heap s)) kw = (Inr (Suc (length (heap ?s1))), ?s2)"
    by (rule minmax_helper_nonempty[OF d ne])
  have rest: "\<forall>a\<in>set as. data a \<noteq> []" using Cons.prems by simp
  have ih: "minmax_loop ?s2 (map View as) kw =
           (Inr (map (\<lambda>j. length (heap ?s2) + 3 * j + 2) [0..<length as]),
            ?s2\<lparr>heap := heap ?s2 @ concat (map (view_objs kw) as)\<rparr>)"
    by (rule Cons.IH[OF rest])
  have idx: "map (\<lambda>j. length (heap s) + 3 * j + 2) [0..<length (a # as)] =
             (length (heap s) + 2) # map (\<lambda>j. length (heap ?s2) + 3 * j + 2) [0..<length as]"
    by (simp add: map_upt_Suc del: upt_Suc)
  show ?case
    unfolding idx using h ih
    by (simp add: alloc_def view_objs_def[abs_def] del: upt_Suc)
qed

lemma length_concat_view_objs: "length (concat (map (view_objs kw) as)) = 3 * length as"
  by (induction as) (simp_all add: view_objs_def)

lemma concat_view_objs_nth:
  "i < length as \<Longrightarrow> concat (map (view_objs kw) as) ! (3 * i + 2) = ArrayObj (normalize_own (as ! i) kw)"
proof (induction as arbitrary: i)
  case Nil
  then show ?case by simp
next
  case (Cons a as)
  show ?case
  proof (cases i)
    case 0
    then show ?thesis by (simp add: view_objs_def)
  next
    case (Suc j)
    then have j: "j < length as" using Cons.prems by simp
    have "3 * i + 2 = 3 + (3 * j + 2)" using Suc by simp
    then have "concat (map (view_objs kw) (a # as)) ! (3 * i + 2) =
          (view_objs kw a @ concat (map (view_objs kw) as)) ! (3 + (3 * j + 2))" by simp
    also have "\<dots> = concat (map (view_objs kw) as) ! (3 * j + 2)"
      by (simp add: nth_append view_objs_def)
    also have "\<dots> = ArrayObj (normalize_own (as ! j) kw)" by (rule Cons.IH[OF j])
    finally show ?thesis using Suc by simp
  qed
qed

lemma length_slices: "shape a = n # rest \<Longrightarrow> length (slices a) = n"
  by (simp add: slices_def)

lemma slices_nth:
  "shape a = n # rest \<Longrightarrow> i < n \<Longrightarrow>
   slices a ! i = \<lparr>dtype = dtype a, shape = rest,
                   data = take (prod_list rest) (drop (i * prod_list rest) (data a))\<rparr>"
  by (simp add: slices_def)

lemma slices_nonempty:
  assumes "shape a = n # rest" and "length (data a) = prod_list (shape a)" and "0 < prod_list rest"
  shows "\<forall>b\<in>set (slices a). data b \<noteq> []"
proof
  fix b assume "b \<in> set (slices a)"
  then obtain i where i: "i < n" and b: "b = slices a ! i"
    using length_slices[OF assms(1)] by (auto simp: in_set_conv_nth)
  have le: "Suc i * prod_list rest \<le> n * prod_list rest"
    using i by (intro mult_le_mono1) simp
  have "i * prod_list rest < Suc i * prod_list rest"
    using assms(3) by simp
  then have "i * prod_list rest < n * prod_list rest"
    using le by (rule less_le_trans)
  then have "i * prod_list rest < length (data a)"
    using assms(1,2) by simp
  then show "data b \<noteq> []"
    using b slices_nth[OF assms(1) i] assms(3) by simp
qed


lemma heap_logger_info: "heap (logger_info s m) = heap s"
  by (simp add: logger_info_def)

lemma deref_logger_info: "deref (logger_info s m) x = deref s x"
  by (simp add: deref_def heap_logger_info)

lemma minmax_array_run:
  assumes a: "deref s p = ArrayObj a" and sh: "shape a = n # m # rest"
    and len: "length (data a) = prod_list (shape a)" and pos: "0 < prod_list (m # rest)"
  shows "minmax s p timing kw =
           (Inr (length (heap s) + 3 * n, None),
            if timing
            then logger_info
                   (s\<lparr>heap := heap s @ concat (map (view_objs kw) (slices a)) @
                         [ListObj (map (\<lambda>j. length (heap s) + 3 * j + 2) [0..<n])]\<rparr>) ''minmax''
            else s\<lparr>heap := heap s @ concat (map (view_objs kw) (slices a)) @
                         [ListObj (map (\<lambda>j. length (heap s) + 3 * j + 2) [0..<n])]\<rparr>)"
proof -
  have it: "py_iter s p = Inr (map View (slices a))"
    using a sh by (simp add: py_iter_def)
  have ne: "\<forall>b\<in>set (slices a). data b \<noteq> []"
    using slices_nonempty[OF sh len pos] .
  have ls: "length (slices a) = n" using length_slices[OF sh] .
  have loop: "minmax_loop s (map View (slices a)) kw =
           (Inr (map (\<lambda>j. length (heap s) + 3 * j + 2) [0..<n]),
            s\<lparr>heap := heap s @ concat (map (view_objs kw) (slices a))\<rparr>)"
    using minmax_loop_views[OF ne, of s kw] ls by simp
  show ?thesis
    by (simp add: minmax_def it loop alloc_def length_concat_view_objs ls)
qed

text \<open>
  Claim C10. Called with one array of two or more dimensions (every slice along the
  first axis having an element), \<^verbatim>\<open>minmax\<close> returns a list with one array for each slice
  along the first axis, and the array at position \<open>i\<close> is slice \<open>i\<close> rescaled with the
  maximum and minimum of that slice alone. Called with the empty list, it returns a new
  empty list. The second component of the result is \<^verbatim>\<open>None\<close> in both cases.
\<close>

theorem minmax_iterates_first_axis:
  "(deref s p = ArrayObj a \<and> shape a = n # m # rest \<and>
    length (data a) = prod_list (shape a) \<and> 0 < prod_list (m # rest) \<longrightarrow>
      (\<exists>l rs s'. minmax s p timing kw = (Inr (l, None), s') \<and>
         deref s' l = ListObj rs \<and> length rs = n \<and>
         (\<forall>i<n. \<exists>mx mn. np_max (slices a ! i) = Inr mx \<and> np_min (slices a ! i) = Inr mn \<and>
            deref s' (rs ! i) = ArrayObj (normalized (slices a ! i) mx mn (get_bins kw))))) \<and>
   (deref s q = ListObj [] \<longrightarrow>
      (\<exists>l s'. minmax s q timing kw = (Inr (l, None), s') \<and> deref s' l = ListObj []))"
proof (intro conjI impI)
  assume h: "deref s p = ArrayObj a \<and> shape a = n # m # rest \<and>
    length (data a) = prod_list (shape a) \<and> 0 < prod_list (m # rest)"
  then have a: "deref s p = ArrayObj a" and sh: "shape a = n # m # rest"
    and len: "length (data a) = prod_list (shape a)" and pos: "0 < prod_list (m # rest)"
    by simp_all
  define rs where "rs = map (\<lambda>j. length (heap s) + 3 * j + 2) [0..<n]"
  define s2 where "s2 = s\<lparr>heap := heap s @ concat (map (view_objs kw) (slices a)) @ [ListObj rs]\<rparr>"
  define s3 where "s3 = (if timing then logger_info s2 ''minmax'' else s2)"
  have run: "minmax s p timing kw = (Inr (length (heap s) + 3 * n, None), s3)"
    using minmax_array_run[OF a sh len pos, of timing kw] by (simp add: rs_def s2_def s3_def)
  have ls: "length (slices a) = n" using length_slices[OF sh] .
  have d3: "\<And>x. deref s3 x = deref s2 x"
    by (simp add: s3_def deref_logger_info)
  have dl: "deref s3 (length (heap s) + 3 * n) = ListObj rs"
    unfolding d3 by (simp add: s2_def deref_def nth_append length_concat_view_objs ls)
  have lr: "length rs = n" by (simp add: rs_def)
  have each: "\<exists>mx mn. np_max (slices a ! i) = Inr mx \<and> np_min (slices a ! i) = Inr mn \<and>
            deref s3 (rs ! i) = ArrayObj (normalized (slices a ! i) mx mn (get_bins kw))"
    if i: "i < n" for i
  proof -
    have ne: "data (slices a ! i) \<noteq> []"
      using slices_nonempty[OF sh len pos] i ls by simp
    have ri: "rs ! i = length (heap s) + (3 * i + 2)" using i by (simp add: rs_def)
    have lt: "3 * i + 2 < 3 * n" using i by simp
    have "deref s3 (rs ! i) = concat (map (view_objs kw) (slices a)) ! (3 * i + 2)"
      unfolding d3 ri using lt
      by (simp add: s2_def deref_def nth_append length_concat_view_objs ls)
    also have "\<dots> = ArrayObj (normalize_own (slices a ! i) kw)"
      using concat_view_objs_nth[of i "slices a" kw] i ls by simp
    finally have "deref s3 (rs ! i) =
        ArrayObj (normalized (slices a ! i) (projr (np_max (slices a ! i)))
                    (projr (np_min (slices a ! i))) (get_bins kw))"
      by (simp add: normalize_own_def)
    then show ?thesis
      using np_max_nonempty[OF ne] np_min_nonempty[OF ne] by simp
  qed
  show "\<exists>l rs s'. minmax s p timing kw = (Inr (l, None), s') \<and>
         deref s' l = ListObj rs \<and> length rs = n \<and>
         (\<forall>i<n. \<exists>mx mn. np_max (slices a ! i) = Inr mx \<and> np_min (slices a ! i) = Inr mn \<and>
            deref s' (rs ! i) = ArrayObj (normalized (slices a ! i) mx mn (get_bins kw)))"
    using run dl lr each by blast
next
  assume q: "deref s q = ListObj []"
  have "minmax s q timing kw =
          (Inr (length (heap s), None),
           if timing then logger_info (s\<lparr>heap := heap s @ [ListObj []]\<rparr>) ''minmax''
           else s\<lparr>heap := heap s @ [ListObj []]\<rparr>)"
    using q by (simp add: minmax_def py_iter_def alloc_def)
  moreover have "deref (if timing then logger_info (s\<lparr>heap := heap s @ [ListObj []]\<rparr>) ''minmax''
           else s\<lparr>heap := heap s @ [ListObj []]\<rparr>) (length (heap s)) = ListObj []"
    by (simp add: deref_def heap_logger_info)
  ultimately show "\<exists>l s'. minmax s q timing kw = (Inr (l, None), s') \<and> deref s' l = ListObj []"
    by blast
qed

text \<open>On \<open>[[0, 10], [20, 30]]\<close> both rows become \<open>[0, 255]\<close>, where \<^verbatim>\<open>_minmax_helper\<close> on
  the whole array gives \<open>[[0, 85], [170, 255]]\<close>.\<close>

theorem minmax_iterates_first_axis_witness:
  "(\<exists>l rs s'.
      minmax \<lparr>heap = [ArrayObj \<lparr>dtype = Int64, shape = [2, 2],
                                  data = [Fin 0, Fin 10, Fin 20, Fin 30]\<rparr>, ListObj []],
              logged = []\<rparr> 0 False [] = (Inr (l, None), s') \<and>
      deref s' l = ListObj rs \<and> length rs = 2 \<and>
      deref s' (rs ! 0) = ArrayObj \<lparr>dtype = Float32, shape = [2], data = [Fin 0, Fin 255]\<rparr> \<and>
      deref s' (rs ! 1) = ArrayObj \<lparr>dtype = Float32, shape = [2], data = [Fin 0, Fin 255]\<rparr>) \<and>
   (\<exists>l s'.
      minmax \<lparr>heap = [ArrayObj \<lparr>dtype = Int64, shape = [2, 2],
                                  data = [Fin 0, Fin 10, Fin 20, Fin 30]\<rparr>, ListObj []],
              logged = []\<rparr> 1 False [] = (Inr (l, None), s') \<and>
      deref s' l = ListObj [])"
proof -
  let ?A = "\<lparr>dtype = Int64, shape = [2, 2], data = [Fin 0, Fin 10, Fin 20, Fin 30]\<rparr>"
  let ?S = "\<lparr>heap = [ArrayObj ?A, ListObj []], logged = []\<rparr>"
  have h: "deref ?S 0 = ArrayObj ?A \<and> shape ?A = 2 # 2 # [] \<and>
           length (data ?A) = prod_list (shape ?A) \<and> 0 < prod_list (2 # ([]::nat list))"
    by (simp add: deref_def)
  have hq: "deref ?S 1 = ListObj []"
    by (simp add: deref_def)
  have sl: "slices ?A ! 0 = \<lparr>dtype = Int64, shape = [2], data = [Fin 0, Fin 10]\<rparr>"
           "slices ?A ! 1 = \<lparr>dtype = Int64, shape = [2], data = [Fin 20, Fin 30]\<rparr>"
    by (simp_all add: slices_def upt_rec numeral_2_eq_2)
  have n0: "\<And>mx mn. np_max (slices ?A ! 0) = Inr mx \<Longrightarrow> np_min (slices ?A ! 0) = Inr mn \<Longrightarrow>
        normalized (slices ?A ! 0) mx mn (get_bins []) =
          \<lparr>dtype = Float32, shape = [2], data = [Fin 0, Fin 255]\<rparr>"
    unfolding sl
    by (auto simp: np_max_def np_min_def fmax2_def fmin2_def normalized_def rescale_def
        scalar_sub_def wrap_int_def get_bins_def astype_def round32_numeral)
  have n1: "\<And>mx mn. np_max (slices ?A ! 1) = Inr mx \<Longrightarrow> np_min (slices ?A ! 1) = Inr mn \<Longrightarrow>
        normalized (slices ?A ! 1) mx mn (get_bins []) =
          \<lparr>dtype = Float32, shape = [2], data = [Fin 0, Fin 255]\<rparr>"
    unfolding sl
    by (auto simp: np_max_def np_min_def fmax2_def fmin2_def normalized_def rescale_def
        scalar_sub_def wrap_int_def get_bins_def astype_def round32_numeral)
  have inst: "(\<exists>l rs s'. minmax ?S 0 False [] = (Inr (l, None), s') \<and>
         deref s' l = ListObj rs \<and> length rs = 2 \<and>
         (\<forall>i<2. \<exists>mx mn. np_max (slices ?A ! i) = Inr mx \<and> np_min (slices ?A ! i) = Inr mn \<and>
            deref s' (rs ! i) = ArrayObj (normalized (slices ?A ! i) mx mn (get_bins [])))) \<and>
      (\<exists>l s'. minmax ?S 1 False [] = (Inr (l, None), s') \<and> deref s' l = ListObj [])"
    using minmax_iterates_first_axis[of ?S 0 ?A 2 2 "[]" False "[]" 1] h hq by blast
  then obtain l rs s' where r: "minmax ?S 0 False [] = (Inr (l, None), s')"
      "deref s' l = ListObj rs" "length rs = 2"
      and e: "\<forall>i<2. \<exists>mx mn. np_max (slices ?A ! i) = Inr mx \<and> np_min (slices ?A ! i) = Inr mn \<and>
            deref s' (rs ! i) = ArrayObj (normalized (slices ?A ! i) mx mn (get_bins []))"
    by blast
  have e0: "deref s' (rs ! 0) = ArrayObj \<lparr>dtype = Float32, shape = [2], data = [Fin 0, Fin 255]\<rparr>"
    using e n0 by (metis zero_less_numeral)
  have e1: "deref s' (rs ! 1) = ArrayObj \<lparr>dtype = Float32, shape = [2], data = [Fin 0, Fin 255]\<rparr>"
    using e n1 by (metis one_less_numeral_iff semiring_norm(76))
  show ?thesis
    using inst r e0 e1 by blast
qed


section \<open>No operation changes an object it was given\<close>

lemma minmax_helper_success:
  assumes "fst (minmax_helper s p kw) = Inr r"
  shows "\<exists>a. deref s p = ArrayObj a \<and> data a \<noteq> []"
proof (cases "\<exists>a. deref s p = ArrayObj a")
  case True
  then obtain a where a: "deref s p = ArrayObj a" by blast
  have "data a \<noteq> []"
  proof
    assume "data a = []"
    then show False using assms minmax_helper_empty[OF a, of kw] by simp
  qed
  then show ?thesis using a by blast
next
  case False
  then show ?thesis using assms by (simp add: minmax_helper_not_array)
qed

lemma minmax_helper_result:
  assumes "fst (minmax_helper s p kw) = Inr r"
  shows "r = Suc (length (heap s)) \<and> r < length (heap (snd (minmax_helper s p kw))) \<and>
         (\<exists>out. deref (snd (minmax_helper s p kw)) r = ArrayObj out \<and> dtype out = Float32)"
proof -
  obtain a where a: "deref s p = ArrayObj a" and ne: "data a \<noteq> []"
    using minmax_helper_success[OF assms] by blast
  have run: "minmax_helper s p kw =
           (Inr (Suc (length (heap s))),
            s\<lparr>heap := heap s @ [ArrayObj (astype a Float32), ArrayObj (normalize_own a kw)]\<rparr>)"
    by (rule minmax_helper_nonempty[OF a ne])
  have r: "r = Suc (length (heap s))" using assms run by simp
  have "dtype (normalize_own a kw) = Float32"
    by (simp add: normalize_own_def normalized_def)
  then show ?thesis
    using r run deref_new_pair(1)[of s "ArrayObj (astype a Float32)" "ArrayObj (normalize_own a kw)"]
    by simp
qed

lemma frame_py_next: "frame s (snd (py_next s it))"
  by (cases it) (simp_all add: frame_refl frame_alloc)

lemma frame_minmax_loop: "frame s (snd (minmax_loop s its kw))"
proof (induction its arbitrary: s)
  case Nil
  show ?case by (simp add: frame_refl)
next
  case (Cons it its)
  obtain p s1 where n: "py_next s it = (p, s1)" by (cases "py_next s it")
  obtain res s2 where h: "minmax_helper s1 p kw = (res, s2)" by (cases "minmax_helper s1 p kw")
  have f1: "frame s s1" using frame_py_next[of s it] n by simp
  have f2: "frame s1 s2" using frame_minmax_helper[of s1 p kw] h by simp
  have f12: "frame s s2" using f1 f2 by (rule frame_trans)
  show ?case
  proof (cases res)
    case (Inl e)
    then show ?thesis using n h f12 by simp
  next
    case (Inr r)
    have f3: "frame s2 (snd (minmax_loop s2 its kw))" by (rule Cons.IH)
    have "frame s (snd (minmax_loop s2 its kw))" using f12 f3 by (rule frame_trans)
    then show ?thesis using n h Inr by (auto split: prod.splits sum.splits)
  qed
qed

lemma minmax_loop_results:
  "fst (minmax_loop s its kw) = Inr rs \<Longrightarrow>
   \<forall>r\<in>set rs. length (heap s) \<le> r \<and>
     (\<exists>out. deref (snd (minmax_loop s its kw)) r = ArrayObj out \<and> dtype out = Float32)"
proof (induction its arbitrary: s rs)
  case Nil
  then show ?case by simp
next
  case (Cons it its)
  obtain p s1 where n: "py_next s it = (p, s1)" by (cases "py_next s it")
  obtain res s2 where h: "minmax_helper s1 p kw = (res, s2)" by (cases "minmax_helper s1 p kw")
  obtain res' s3 where l: "minmax_loop s2 its kw = (res', s3)" by (cases "minmax_loop s2 its kw")
  from Cons.prems n h l obtain r rs' where res: "res = Inr r" and res': "res' = Inr rs'"
    and rs: "rs = r # rs'"
    by (auto split: sum.splits)
  have fin: "snd (minmax_loop s (it # its) kw) = s3"
    using n h l res res' by simp
  have f1: "frame s s1" using frame_py_next[of s it] n by simp
  have f2: "frame s1 s2" using frame_minmax_helper[of s1 p kw] h by simp
  have f3: "frame s2 s3" using frame_minmax_loop[of s2 its kw] l by simp
  have l1: "length (heap s) \<le> length (heap s1)" using f1 by (rule frame_length)
  have l2: "length (heap s1) \<le> length (heap s2)" using f2 by (rule frame_length)
  have hr: "r = Suc (length (heap s1)) \<and> r < length (heap s2) \<and>
         (\<exists>out. deref s2 r = ArrayObj out \<and> dtype out = Float32)"
  proof -
    have "fst (minmax_helper s1 p kw) = Inr r" using h res by simp
    from minmax_helper_result[OF this] show ?thesis using h by auto
  qed
  have r3: "deref s3 r = deref s2 r" using f3 hr by (auto simp: frame_deref)
  have head: "length (heap s) \<le> r \<and> (\<exists>out. deref s3 r = ArrayObj out \<and> dtype out = Float32)"
    using hr r3 l1 by auto
  have tail: "\<forall>x\<in>set rs'. length (heap s2) \<le> x \<and>
     (\<exists>out. deref s3 x = ArrayObj out \<and> dtype out = Float32)"
    using Cons.IH[of s2 rs'] l res' by simp
  have tail': "\<forall>x\<in>set rs'. length (heap s) \<le> x \<and>
     (\<exists>out. deref s3 x = ArrayObj out \<and> dtype out = Float32)"
    using tail l1 l2 by auto
  show ?case unfolding fin rs using head tail' by simp
qed

lemma frame_minmax: "frame s (snd (minmax s p timing kw))"
proof (cases "py_iter s p")
  case (Inl e)
  then show ?thesis by (simp add: minmax_def frame_refl)
next
  case (Inr items)
  obtain res s1 where l: "minmax_loop s items kw = (res, s1)" by (cases "minmax_loop s items kw")
  have f1: "frame s s1" using frame_minmax_loop[of s items kw] l by simp
  show ?thesis
  proof (cases res)
    case (Inl e)
    then show ?thesis using Inr l f1 by (simp add: minmax_def)
  next
    case (Inr rs)
    have "frame s (snd (alloc s1 (ListObj rs)))"
      using f1 frame_alloc by (rule frame_trans)
    moreover have "frame s (logger_info (snd (alloc s1 (ListObj rs))) ''minmax'')"
      using calculation frame_logger_info by (rule frame_trans)
    ultimately show ?thesis
      using \<open>py_iter s p = Inr items\<close> l Inr by (simp add: minmax_def split_def Let_def)
  qed
qed

lemma minmax_result:
  assumes "fst (minmax s p timing kw) = Inr (l, aux)"
  shows "aux = None \<and> length (heap s) \<le> l \<and>
         (\<exists>rs. deref (snd (minmax s p timing kw)) l = ListObj rs \<and>
            (\<forall>r\<in>set rs. length (heap s) \<le> r \<and>
               (\<exists>out. deref (snd (minmax s p timing kw)) r = ArrayObj out \<and> dtype out = Float32)))"
proof -
  obtain items where it: "py_iter s p = Inr items"
    using assms by (cases "py_iter s p") (simp_all add: minmax_def)
  obtain res s1 where lp: "minmax_loop s items kw = (res, s1)" by (cases "minmax_loop s items kw")
  obtain rs where res: "res = Inr rs"
    using assms it lp by (cases res) (simp_all add: minmax_def)
  let ?s2 = "s1\<lparr>heap := heap s1 @ [ListObj rs]\<rparr>"
  let ?s3 = "if timing then logger_info ?s2 ''minmax'' else ?s2"
  have run: "minmax s p timing kw = (Inr (length (heap s1), None), ?s3)"
    using it lp res by (simp add: minmax_def alloc_def)
  have f1: "frame s s1" using frame_minmax_loop[of s items kw] lp by simp
  have l1: "length (heap s) \<le> length (heap s1)" using f1 by (rule frame_length)
  have d3: "\<And>x. deref ?s3 x = deref ?s2 x" by (simp add: deref_logger_info)
  have dl: "deref ?s3 (length (heap s1)) = ListObj rs"
    unfolding d3 by (simp add: deref_def)
  have el: "\<forall>r\<in>set rs. length (heap s) \<le> r \<and>
     (\<exists>out. deref s1 r = ArrayObj out \<and> dtype out = Float32)"
    using minmax_loop_results[of s items kw rs] lp res by simp
  have old: "\<And>r out. deref s1 r = ArrayObj out \<Longrightarrow> deref ?s3 r = ArrayObj out"
    unfolding d3 by (auto simp: deref_def nth_append split: if_splits)
  have el3: "\<forall>r\<in>set rs. length (heap s) \<le> r \<and>
     (\<exists>out. deref ?s3 r = ArrayObj out \<and> dtype out = Float32)"
    using el old by blast
  have "l = length (heap s1)" and "aux = None" using assms run by simp_all
  then show ?thesis using run l1 dl el3 by simp
qed

lemma get_norm_unfold:
  "get_norm s images nt timing kw =
     (case extract_pixels s images False of
        (Inl e, s1) \<Rightarrow> (Inl e, s1)
      | (Inr px, s1) \<Rightarrow>
          (if lower nt = ''minmax'' \<or> lower nt = ''min-max''
           then (case minmax s1 px timing kw of
                   (Inl e, s2) \<Rightarrow> (Inl e, s2)
                 | (Inr (np, aux), s2) \<Rightarrow>
                     (Inr (np, None), if timing then logger_info s2 ''get_norm'' else s2))
           else (Inl (ValueError ''Invalid normalization type''), s1)))"
  by (simp add: get_norm_def split: prod.splits sum.splits)

lemma frame_get_norm: "frame s (snd (get_norm s images nt timing kw))"
proof -
  obtain res s1 where e: "extract_pixels s images False = (res, s1)"
    by (cases "extract_pixels s images False")
  have f1: "frame s s1" using frame_extract_pixels[of s images False] e by simp
  show ?thesis
  proof (cases res)
    case (Inl err)
    then show ?thesis using e f1 by (simp add: get_norm_unfold)
  next
    case (Inr px)
    obtain res2 s2 where m: "minmax s1 px timing kw = (res2, s2)"
      by (cases "minmax s1 px timing kw")
    have f2: "frame s s2"
      using f1 frame_minmax[of s1 px timing kw] m by (auto intro: frame_trans)
    have f3: "frame s (logger_info s2 ''get_norm'')"
      using f2 frame_logger_info by (rule frame_trans)
    show ?thesis
      using e Inr m f1 f2 f3
      by (cases res2) (auto simp: get_norm_unfold split: prod.splits)
  qed
qed

lemma get_norm_result:
  assumes "fst (get_norm s images nt timing kw) = Inr (l, aux)"
  shows "aux = None \<and> length (heap s) \<le> l \<and>
         (\<exists>rs. deref (snd (get_norm s images nt timing kw)) l = ListObj rs \<and>
            (\<forall>r\<in>set rs. length (heap s) \<le> r \<and>
               (\<exists>out. deref (snd (get_norm s images nt timing kw)) r = ArrayObj out \<and>
                      dtype out = Float32)))"
proof -
  obtain res s1 where e: "extract_pixels s images False = (res, s1)"
    by (cases "extract_pixels s images False")
  obtain px where res: "res = Inr px"
    using assms e by (cases res) (simp_all add: get_norm_unfold)
  have nt: "lower nt = ''minmax'' \<or> lower nt = ''min-max''"
    using assms e res by (auto simp: get_norm_unfold split: if_splits)
  obtain res2 s2 where m: "minmax s1 px timing kw = (res2, s2)"
    by (cases "minmax s1 px timing kw")
  obtain l' aux' where res2: "res2 = Inr (l', aux')"
    using assms e res nt m by (cases res2) (auto simp: get_norm_unfold)
  let ?s3 = "if timing then logger_info s2 ''get_norm'' else s2"
  have run: "get_norm s images nt timing kw = (Inr (l', None), ?s3)"
    using e res nt m res2 by (simp add: get_norm_unfold)
  have ll: "l = l'" and aux: "aux = None" using assms run by simp_all
  have f1: "frame s s1" using frame_extract_pixels[of s images False] e by simp
  have l1: "length (heap s) \<le> length (heap s1)" using f1 by (rule frame_length)
  have mr: "length (heap s1) \<le> l' \<and>
         (\<exists>rs. deref s2 l' = ListObj rs \<and>
            (\<forall>r\<in>set rs. length (heap s1) \<le> r \<and>
               (\<exists>out. deref s2 r = ArrayObj out \<and> dtype out = Float32)))"
    using minmax_result[of s1 px timing kw l' aux'] m res2 by simp
  have d3: "\<And>x. deref ?s3 x = deref s2 x" by (simp add: deref_logger_info)
  have mr': "length (heap s) \<le> l' \<and>
         (\<exists>rs. deref s2 l' = ListObj rs \<and>
            (\<forall>r\<in>set rs. length (heap s) \<le> r \<and>
               (\<exists>out. deref s2 r = ArrayObj out \<and> dtype out = Float32)))"
    using mr l1 by (meson le_trans)
  show ?thesis
    unfolding run snd_conv d3 ll using aux mr' by simp
qed

lemma deref_is_list_in_range:
  assumes "deref s l = ListObj acc"
  shows "l < length (heap s)"
proof (rule ccontr)
  assume "\<not> l < length (heap s)"
  then have "deref s l = OtherObj ''NoneType''" by (simp add: deref_def)
  then show False using assms by simp
qed

lemma deref_store_same: "l < length (heap s) \<Longrightarrow> deref (store s l ob) l = ob"
  by (simp add: store_def deref_def)

lemma deref_store_other: "y \<noteq> l \<Longrightarrow> deref (store s l ob) y = deref s y"
  by (simp add: store_def deref_def)

lemma deref_list_append_same:
  assumes "deref s l = ListObj acc"
  shows "deref (list_append s l x) l = ListObj (acc @ [x])"
proof -
  have r: "l < length (heap s)" using assms by (rule deref_is_list_in_range)
  have "list_append s l x = store s l (ListObj (acc @ [x]))"
    using assms by (simp add: list_append_def)
  then show ?thesis using r by (simp add: deref_store_same)
qed

lemma deref_list_append_other:
  assumes "y \<noteq> l"
  shows "deref (list_append s l x) y = deref s y"
proof (cases "deref s l")
  case (ListObj xs)
  then have "list_append s l x = store s l (ListObj (xs @ [x]))"
    by (simp add: list_append_def)
  then show ?thesis using assms by (simp add: deref_store_other)
qed (simp_all add: list_append_def)

lemma pixel_ref_list_append: "y \<noteq> l \<Longrightarrow> pixel_ref (list_append s l x) y = pixel_ref s y"
  by (simp add: pixel_ref_def deref_list_append_other)

lemma extract_loop_contents:
  assumes "deref s pixels = ListObj acc" and "pixels \<notin> set xs"
    and "fst (extract_loop s pixels xs) = Inr u"
  shows "deref (snd (extract_loop s pixels xs)) pixels = ListObj (acc @ map (pixel_ref s) xs)"
  using assms
proof (induction xs arbitrary: s acc)
  case Nil
  then show ?case by simp
next
  case (Cons x xs)
  have xp: "x \<noteq> pixels" and nin: "pixels \<notin> set xs" using Cons.prems(2) by auto
  have succ: "\<exists>a p. deref s x = ArrayObj a \<or> deref s x = NamespaceObj (Some p) \<or>
                deref s x = DatasetObj p"
    using Cons.prems(3) by (cases "deref s x") (auto split: option.splits)
  let ?s1 = "list_append s pixels (pixel_ref s x)"
  have step: "extract_loop s pixels (x # xs) = extract_loop ?s1 pixels xs"
    using succ by (auto simp: pixel_ref_def)
  have d1: "deref ?s1 pixels = ListObj (acc @ [pixel_ref s x])"
    using Cons.prems(1) by (rule deref_list_append_same)
  have ok: "fst (extract_loop ?s1 pixels xs) = Inr u"
    using Cons.prems(3) step by simp
  have same: "map (pixel_ref ?s1) xs = map (pixel_ref s) xs"
  proof (rule map_cong[OF refl])
    fix y assume "y \<in> set xs"
    then have "y \<noteq> pixels" using nin by auto
    then show "pixel_ref ?s1 y = pixel_ref s y" by (rule pixel_ref_list_append)
  qed
  have "deref (snd (extract_loop ?s1 pixels xs)) pixels =
          ListObj ((acc @ [pixel_ref s x]) @ map (pixel_ref ?s1) xs)"
    using Cons.IH[OF d1 nin ok] .
  then show ?case using step same by simp
qed

lemma deref_push_old:
  "x < length (heap s) \<Longrightarrow> deref (s\<lparr>heap := heap s @ obs\<rparr>) x = deref s x"
  by (simp add: deref_def nth_append)

lemma pixel_ref_push_old:
  "x < length (heap s) \<Longrightarrow> pixel_ref (s\<lparr>heap := heap s @ obs\<rparr>) x = pixel_ref s x"
  by (simp add: pixel_ref_def deref_push_old)

lemma extract_pixels_list:
  assumes "images < length (heap s)" and "deref s images = ListObj xs"
  shows "extract_pixels s images timing =
           (case extract_loop (s\<lparr>heap := heap s @ [ListObj []]\<rparr>) (length (heap s)) xs of
              (Inl e, s2) \<Rightarrow> (Inl e, s2)
            | (Inr u, s2) \<Rightarrow>
                (Inr (length (heap s)),
                 if timing then logger_info s2 ''Extract pixels'' else s2))"
proof -
  have "deref (s\<lparr>heap := heap s @ [ListObj []]\<rparr>) images = ListObj xs"
    using assms by (simp add: deref_push_old)
  then show ?thesis by (simp add: extract_pixels_def alloc_def)
qed

lemma extract_pixels_array:
  assumes "images < length (heap s)" and "deref s images = ArrayObj a"
  shows "extract_pixels s images timing =
           (Inr (Suc (length (heap s))),
            if timing
            then logger_info (s\<lparr>heap := heap s @ [ListObj [], ListObj [images]]\<rparr>) ''Extract pixels''
            else s\<lparr>heap := heap s @ [ListObj [], ListObj [images]]\<rparr>)"
proof -
  have "deref (s\<lparr>heap := heap s @ [ListObj []]\<rparr>) images = ArrayObj a"
    using assms by (simp add: deref_push_old)
  then show ?thesis by (simp add: extract_pixels_def alloc_def)
qed

lemma extract_pixels_namespace:
  assumes "images < length (heap s)" and "deref s images = NamespaceObj (Some p)"
  shows "extract_pixels s images timing =
           (Inr (Suc (length (heap s))),
            if timing
            then logger_info (s\<lparr>heap := heap s @ [ListObj [], ListObj [p]]\<rparr>) ''Extract pixels''
            else s\<lparr>heap := heap s @ [ListObj [], ListObj [p]]\<rparr>)"
proof -
  have "deref (s\<lparr>heap := heap s @ [ListObj []]\<rparr>) images = NamespaceObj (Some p)"
    using assms by (simp add: deref_push_old)
  then show ?thesis by (simp add: extract_pixels_def alloc_def)
qed

lemma extract_pixels_namespace_none:
  assumes "images < length (heap s)" and "deref s images = NamespaceObj None"
  shows "fst (extract_pixels s images timing) = Inl (AttributeError ''pixels'')"
proof -
  have "deref (s\<lparr>heap := heap s @ [ListObj []]\<rparr>) images = NamespaceObj None"
    using assms by (simp add: deref_push_old)
  then show ?thesis by (simp add: extract_pixels_def alloc_def)
qed

lemma extract_pixels_dataset:
  assumes "images < length (heap s)" and "deref s images = DatasetObj p"
  shows "fst (extract_pixels s images timing) =
           Inl (TypeError (unknown_type_msg ''pydicom.dataset.FileDataset''))"
proof -
  have "deref (s\<lparr>heap := heap s @ [ListObj []]\<rparr>) images = DatasetObj p"
    using assms by (simp add: deref_push_old)
  then show ?thesis by (simp add: extract_pixels_def alloc_def)
qed

lemma extract_pixels_other:
  assumes "images < length (heap s)" and "deref s images = OtherObj t"
  shows "fst (extract_pixels s images timing) = Inl (TypeError (unknown_type_msg t))"
proof -
  have "deref (s\<lparr>heap := heap s @ [ListObj []]\<rparr>) images = OtherObj t"
    using assms by (simp add: deref_push_old)
  then show ?thesis by (simp add: extract_pixels_def alloc_def)
qed

lemma extract_pixels_result:
  assumes v: "images < length (heap s)"
    and ok: "fst (extract_pixels s images timing) = Inr l"
  shows "length (heap s) \<le> l \<and>
         (\<forall>xs. deref s images = ListObj xs \<longrightarrow> (\<forall>x\<in>set xs. x < length (heap s)) \<longrightarrow>
            deref (snd (extract_pixels s images timing)) l = ListObj (map (pixel_ref s) xs)) \<and>
         ((\<forall>xs. deref s images \<noteq> ListObj xs) \<longrightarrow>
            deref (snd (extract_pixels s images timing)) l = ListObj [pixel_ref s images])"
proof (cases "deref s images")
  case (ListObj xs)
  let ?px = "length (heap s)"
  let ?s1 = "s\<lparr>heap := heap s @ [ListObj []]\<rparr>"
  obtain res s2 where lp: "extract_loop ?s1 ?px xs = (res, s2)"
    by (cases "extract_loop ?s1 ?px xs")
  have unf: "extract_pixels s images timing =
      (case (res, s2) of
         (Inl e, s2) \<Rightarrow> (Inl e, s2)
       | (Inr u, s2) \<Rightarrow> (Inr ?px, if timing then logger_info s2 ''Extract pixels'' else s2))"
    using extract_pixels_list[OF v ListObj, of timing] lp by simp
  obtain u where res: "res = Inr u"
    using ok unf by (cases res) simp_all
  let ?s3 = "if timing then logger_info s2 ''Extract pixels'' else s2"
  have run: "extract_pixels s images timing = (Inr ?px, ?s3)"
    using unf res by simp
  have l: "l = ?px" using ok run by simp
  have d3: "\<And>x. deref ?s3 x = deref s2 x" by (simp add: deref_logger_info)
  have dp: "deref ?s1 ?px = ListObj []" by (simp add: deref_def)
  have cont: "deref ?s3 ?px = ListObj (map (pixel_ref s) xs)"
    if wf: "\<forall>x\<in>set xs. x < length (heap s)"
  proof -
    have nin: "?px \<notin> set xs" using wf by auto
    have ok1: "fst (extract_loop ?s1 ?px xs) = Inr u" using lp res by simp
    have "deref (snd (extract_loop ?s1 ?px xs)) ?px = ListObj ([] @ map (pixel_ref ?s1) xs)"
      by (rule extract_loop_contents[OF dp nin ok1])
    moreover have "map (pixel_ref ?s1) xs = map (pixel_ref s) xs"
    proof (rule map_cong[OF refl])
      fix y assume "y \<in> set xs"
      then have "y < length (heap s)" using wf by simp
      then show "pixel_ref ?s1 y = pixel_ref s y" by (rule pixel_ref_push_old)
    qed
    ultimately show ?thesis unfolding d3 using lp by simp
  qed
  show ?thesis
    unfolding run snd_conv l using ListObj cont by simp
next
  case (ArrayObj a)
  let ?s2 = "s\<lparr>heap := heap s @ [ListObj [], ListObj [images]]\<rparr>"
  let ?s3 = "if timing then logger_info ?s2 ''Extract pixels'' else ?s2"
  have run: "extract_pixels s images timing = (Inr (Suc (length (heap s))), ?s3)"
    by (rule extract_pixels_array[OF v ArrayObj])
  have l: "l = Suc (length (heap s))" using ok run by simp
  have d3: "\<And>x. deref ?s3 x = deref ?s2 x" by (simp add: deref_logger_info)
  have "deref ?s3 (Suc (length (heap s))) = ListObj [images]"
    unfolding d3 by (simp add: deref_def nth_append)
  then show ?thesis
    unfolding run snd_conv l using ArrayObj by (simp add: pixel_ref_def)
next
  case (NamespaceObj attr)
  show ?thesis
  proof (cases attr)
    case None
    have "deref s images = NamespaceObj None" using NamespaceObj None by simp
    from extract_pixels_namespace_none[OF v this, of timing] show ?thesis using ok by simp
  next
    case (Some p)
    have ns: "deref s images = NamespaceObj (Some p)" using NamespaceObj Some by simp
    let ?s2 = "s\<lparr>heap := heap s @ [ListObj [], ListObj [p]]\<rparr>"
    let ?s3 = "if timing then logger_info ?s2 ''Extract pixels'' else ?s2"
    have run: "extract_pixels s images timing = (Inr (Suc (length (heap s))), ?s3)"
      by (rule extract_pixels_namespace[OF v ns])
    have l: "l = Suc (length (heap s))" using ok run by simp
    have d3: "\<And>x. deref ?s3 x = deref ?s2 x" by (simp add: deref_logger_info)
    have "deref ?s3 (Suc (length (heap s))) = ListObj [p]"
      unfolding d3 by (simp add: deref_def nth_append)
    then show ?thesis
      unfolding run snd_conv l using ns by (simp add: pixel_ref_def)
  qed
next
  case (DatasetObj p)
  from extract_pixels_dataset[OF v this, of timing] show ?thesis using ok by simp
next
  case (OtherObj t)
  from extract_pixels_other[OF v this, of timing] show ?thesis using ok by simp
qed

text \<open>
  Claim C7. None of \<^verbatim>\<open>extract_pixels\<close>, \<^verbatim>\<open>_minmax_helper\<close>, \<^verbatim>\<open>minmax\<close> and \<^verbatim>\<open>get_norm\<close>
  changes an object that was in the store before the call, whether the call returns or
  raises. The array that \<^verbatim>\<open>_minmax_helper\<close> returns, and the list and the arrays that
  \<^verbatim>\<open>minmax\<close> and \<^verbatim>\<open>get_norm\<close> return, are new objects. The list that \<^verbatim>\<open>extract_pixels\<close>
  returns is a new object too, and its elements are the addresses of the arrays it was
  given (of their \<^verbatim>\<open>pixels\<close> or \<^verbatim>\<open>pixel_array\<close> for a namespace or a dataset), not of
  copies.
\<close>

theorem inputs_not_mutated:
  "frame s (snd (extract_pixels s images timing)) \<and>
   frame s (snd (minmax_helper s p kw)) \<and>
   frame s (snd (minmax s q timing kw)) \<and>
   frame s (snd (get_norm s images nt timing kw)) \<and>
   (\<forall>r. fst (minmax_helper s p kw) = Inr r \<longrightarrow>
      length (heap s) \<le> r \<and>
      (\<exists>out. deref (snd (minmax_helper s p kw)) r = ArrayObj out \<and> dtype out = Float32)) \<and>
   (\<forall>l aux. fst (minmax s q timing kw) = Inr (l, aux) \<longrightarrow>
      length (heap s) \<le> l \<and>
      (\<exists>rs. deref (snd (minmax s q timing kw)) l = ListObj rs \<and>
         (\<forall>r\<in>set rs. length (heap s) \<le> r \<and>
            (\<exists>out. deref (snd (minmax s q timing kw)) r = ArrayObj out \<and> dtype out = Float32)))) \<and>
   (\<forall>l aux. fst (get_norm s images nt timing kw) = Inr (l, aux) \<longrightarrow>
      length (heap s) \<le> l \<and>
      (\<exists>rs. deref (snd (get_norm s images nt timing kw)) l = ListObj rs \<and>
         (\<forall>r\<in>set rs. length (heap s) \<le> r \<and>
            (\<exists>out. deref (snd (get_norm s images nt timing kw)) r = ArrayObj out \<and>
                   dtype out = Float32)))) \<and>
   (\<forall>l. images < length (heap s) \<longrightarrow> fst (extract_pixels s images timing) = Inr l \<longrightarrow>
      length (heap s) \<le> l \<and>
      (\<forall>xs. deref s images = ListObj xs \<longrightarrow> (\<forall>x\<in>set xs. x < length (heap s)) \<longrightarrow>
         deref (snd (extract_pixels s images timing)) l = ListObj (map (pixel_ref s) xs)) \<and>
      ((\<forall>xs. deref s images \<noteq> ListObj xs) \<longrightarrow>
         deref (snd (extract_pixels s images timing)) l = ListObj [pixel_ref s images]))"
proof (intro conjI allI impI)
  show "frame s (snd (extract_pixels s images timing))" by (rule frame_extract_pixels)
  show "frame s (snd (minmax_helper s p kw))" by (rule frame_minmax_helper)
  show "frame s (snd (minmax s q timing kw))" by (rule frame_minmax)
  show "frame s (snd (get_norm s images nt timing kw))" by (rule frame_get_norm)
next
  fix r assume "fst (minmax_helper s p kw) = Inr r"
  from minmax_helper_result[OF this]
  show "length (heap s) \<le> r" by simp
next
  fix r assume "fst (minmax_helper s p kw) = Inr r"
  from minmax_helper_result[OF this]
  show "\<exists>out. deref (snd (minmax_helper s p kw)) r = ArrayObj out \<and> dtype out = Float32"
    by blast
next
  fix l aux assume "fst (minmax s q timing kw) = Inr (l, aux)"
  from minmax_result[OF this] show "length (heap s) \<le> l" by simp
next
  fix l aux assume "fst (minmax s q timing kw) = Inr (l, aux)"
  from minmax_result[OF this]
  show "\<exists>rs. deref (snd (minmax s q timing kw)) l = ListObj rs \<and>
         (\<forall>r\<in>set rs. length (heap s) \<le> r \<and>
            (\<exists>out. deref (snd (minmax s q timing kw)) r = ArrayObj out \<and> dtype out = Float32))"
    by simp
next
  fix l aux assume "fst (get_norm s images nt timing kw) = Inr (l, aux)"
  from get_norm_result[OF this] show "length (heap s) \<le> l" by simp
next
  fix l aux assume "fst (get_norm s images nt timing kw) = Inr (l, aux)"
  from get_norm_result[OF this]
  show "\<exists>rs. deref (snd (get_norm s images nt timing kw)) l = ListObj rs \<and>
         (\<forall>r\<in>set rs. length (heap s) \<le> r \<and>
            (\<exists>out. deref (snd (get_norm s images nt timing kw)) r = ArrayObj out \<and>
                   dtype out = Float32))"
    by simp
next
  fix l assume v: "images < length (heap s)" and ok: "fst (extract_pixels s images timing) = Inr l"
  from extract_pixels_result[OF v ok] show "length (heap s) \<le> l" by simp
next
  fix l xs
  assume v: "images < length (heap s)" and ok: "fst (extract_pixels s images timing) = Inr l"
    and "deref s images = ListObj xs" and "\<forall>x\<in>set xs. x < length (heap s)"
  with extract_pixels_result[OF v ok]
  show "deref (snd (extract_pixels s images timing)) l = ListObj (map (pixel_ref s) xs)"
    by blast
next
  fix l
  assume v: "images < length (heap s)" and ok: "fst (extract_pixels s images timing) = Inr l"
    and "\<forall>xs. deref s images \<noteq> ListObj xs"
  with extract_pixels_result[OF v ok]
  show "deref (snd (extract_pixels s images timing)) l = ListObj [pixel_ref s images]"
    by blast
qed

theorem inputs_not_mutated_witness:
  "frame \<lparr>heap = [ArrayObj \<lparr>dtype = UInt8, shape = [2], data = [Fin 1, Fin 3]\<rparr>, NamespaceObj (Some 0),
                   ListObj [0, 1], ListObj [0]], logged = []\<rparr>
     (snd (extract_pixels
             \<lparr>heap = [ArrayObj \<lparr>dtype = UInt8, shape = [2], data = [Fin 1, Fin 3]\<rparr>, NamespaceObj (Some 0),
                      ListObj [0, 1], ListObj [0]], logged = []\<rparr> 2 False)) \<and>
   frame \<lparr>heap = [ArrayObj \<lparr>dtype = UInt8, shape = [2], data = [Fin 1, Fin 3]\<rparr>, NamespaceObj (Some 0),
                   ListObj [0, 1], ListObj [0]], logged = []\<rparr>
     (snd (minmax_helper
             \<lparr>heap = [ArrayObj \<lparr>dtype = UInt8, shape = [2], data = [Fin 1, Fin 3]\<rparr>, NamespaceObj (Some 0),
                      ListObj [0, 1], ListObj [0]], logged = []\<rparr> 0 [])) \<and>
   frame \<lparr>heap = [ArrayObj \<lparr>dtype = UInt8, shape = [2], data = [Fin 1, Fin 3]\<rparr>, NamespaceObj (Some 0),
                   ListObj [0, 1], ListObj [0]], logged = []\<rparr>
     (snd (minmax
             \<lparr>heap = [ArrayObj \<lparr>dtype = UInt8, shape = [2], data = [Fin 1, Fin 3]\<rparr>, NamespaceObj (Some 0),
                      ListObj [0, 1], ListObj [0]], logged = []\<rparr> 3 False [])) \<and>
   frame \<lparr>heap = [ArrayObj \<lparr>dtype = UInt8, shape = [2], data = [Fin 1, Fin 3]\<rparr>, NamespaceObj (Some 0),
                   ListObj [0, 1], ListObj [0]], logged = []\<rparr>
     (snd (get_norm
             \<lparr>heap = [ArrayObj \<lparr>dtype = UInt8, shape = [2], data = [Fin 1, Fin 3]\<rparr>, NamespaceObj (Some 0),
                      ListObj [0, 1], ListObj [0]], logged = []\<rparr> 2 ''minmax'' False [])) \<and>
   fst (minmax_helper
          \<lparr>heap = [ArrayObj \<lparr>dtype = UInt8, shape = [2], data = [Fin 1, Fin 3]\<rparr>, NamespaceObj (Some 0),
                   ListObj [0, 1], ListObj [0]], logged = []\<rparr> 0 []) = Inr 5 \<and>
   fst (minmax
          \<lparr>heap = [ArrayObj \<lparr>dtype = UInt8, shape = [2], data = [Fin 1, Fin 3]\<rparr>, NamespaceObj (Some 0),
                   ListObj [0, 1], ListObj [0]], logged = []\<rparr> 3 False []) = Inr (6, None) \<and>
   (\<exists>rs. deref (snd (minmax
                        \<lparr>heap = [ArrayObj \<lparr>dtype = UInt8, shape = [2], data = [Fin 1, Fin 3]\<rparr>,
                                 NamespaceObj (Some 0), ListObj [0, 1], ListObj [0]], logged = []\<rparr>
                        3 False [])) 6 = ListObj rs \<and> (\<forall>r\<in>set rs. 4 \<le> r)) \<and>
   fst (get_norm
          \<lparr>heap = [ArrayObj \<lparr>dtype = UInt8, shape = [2], data = [Fin 1, Fin 3]\<rparr>, NamespaceObj (Some 0),
                   ListObj [0, 1], ListObj [0]], logged = []\<rparr> 2 ''minmax'' False []) = Inr (9, None) \<and>
   (\<exists>rs. deref (snd (get_norm
                        \<lparr>heap = [ArrayObj \<lparr>dtype = UInt8, shape = [2], data = [Fin 1, Fin 3]\<rparr>,
                                 NamespaceObj (Some 0), ListObj [0, 1], ListObj [0]], logged = []\<rparr>
                        2 ''minmax'' False [])) 9 = ListObj rs \<and> (\<forall>r\<in>set rs. 4 \<le> r)) \<and>
   fst (extract_pixels
          \<lparr>heap = [ArrayObj \<lparr>dtype = UInt8, shape = [2], data = [Fin 1, Fin 3]\<rparr>, NamespaceObj (Some 0),
                   ListObj [0, 1], ListObj [0]], logged = []\<rparr> 2 False) = Inr 4 \<and>
   deref (snd (extract_pixels
                 \<lparr>heap = [ArrayObj \<lparr>dtype = UInt8, shape = [2], data = [Fin 1, Fin 3]\<rparr>,
                          NamespaceObj (Some 0), ListObj [0, 1], ListObj [0]], logged = []\<rparr> 2 False)) 4 =
     ListObj [0, 0] \<and>
   fst (extract_pixels
          \<lparr>heap = [ArrayObj \<lparr>dtype = UInt8, shape = [2], data = [Fin 1, Fin 3]\<rparr>, NamespaceObj (Some 0),
                   ListObj [0, 1], ListObj [0]], logged = []\<rparr> 0 False) = Inr 5 \<and>
   deref (snd (extract_pixels
                 \<lparr>heap = [ArrayObj \<lparr>dtype = UInt8, shape = [2], data = [Fin 1, Fin 3]\<rparr>,
                          NamespaceObj (Some 0), ListObj [0, 1], ListObj [0]], logged = []\<rparr> 0 False)) 5 =
     ListObj [0]"
proof -
  let ?S = "\<lparr>heap = [ArrayObj \<lparr>dtype = UInt8, shape = [2], data = [Fin 1, Fin 3]\<rparr>, NamespaceObj (Some 0),
                    ListObj [0, 1], ListObj [0]], logged = []\<rparr>"
  note T2 = inputs_not_mutated[where s = ?S and images = 2 and timing = False and p = 0
      and kw = "[]" and q = 3 and nt = "''minmax''"]
  note T0 = inputs_not_mutated[where s = ?S and images = 0 and timing = False and p = 0
      and kw = "[]" and q = 3 and nt = "''minmax''"]
  have len: "length (heap ?S) = 4" by simp
  have e1: "fst (minmax_helper ?S 0 []) = Inr 5"
    by (simp add: eval_defs)
  have e2: "fst (minmax ?S 3 False []) = Inr (6, None)"
    by (simp add: minmax_def py_iter_def eval_defs)
  have e4: "fst (extract_pixels ?S 2 False) = Inr 4"
    by (simp add: extract_pixels_def list_append_def eval_defs)
  have e5: "fst (extract_pixels ?S 0 False) = Inr 5"
    by (simp add: extract_pixels_def eval_defs)
  have e3: "fst (get_norm ?S 2 ''minmax'' False []) = Inr (9, None)"
    by (simp add: get_norm_def lower_minmax extract_pixels_def list_append_def minmax_def
        py_iter_def eval_defs)
  have d2: "deref ?S 2 = ListObj [0, 1]" and d0: "\<forall>xs. deref ?S 0 \<noteq> ListObj xs"
    by (simp_all add: deref_def)
  have pr: "map (pixel_ref ?S) [0, 1] = [0, 0]" and pr0: "pixel_ref ?S 0 = 0"
    by (simp_all add: pixel_ref_def deref_def)
  have f: "frame ?S (snd (extract_pixels ?S 2 False))" "frame ?S (snd (minmax_helper ?S 0 []))"
      "frame ?S (snd (minmax ?S 3 False []))" "frame ?S (snd (get_norm ?S 2 ''minmax'' False []))"
    using T2 by blast+
  have m: "\<exists>rs. deref (snd (minmax ?S 3 False [])) 6 = ListObj rs \<and> (\<forall>r\<in>set rs. 4 \<le> r)"
    using T2 e2 len by (metis (no_types, lifting))
  have g: "\<exists>rs. deref (snd (get_norm ?S 2 ''minmax'' False [])) 9 = ListObj rs \<and> (\<forall>r\<in>set rs. 4 \<le> r)"
    using T2 e3 len by (metis (no_types, lifting))
  have x2: "deref (snd (extract_pixels ?S 2 False)) 4 = ListObj (map (pixel_ref ?S) [0, 1])"
    using T2 e4 d2 len by simp
  have x0: "deref (snd (extract_pixels ?S 0 False)) 5 = ListObj [pixel_ref ?S 0]"
    using T0 e5 d0 len by simp
  show ?thesis
    using f e1 e2 m e3 g e4 x2 e5 x0 unfolding pr pr0 by (intro conjI)
qed

section \<open>The registered names\<close>

text \<open>
  Claim C6. For every input and for each of the names \<open>minmax\<close>, \<open>MinMax\<close>,
  \<open>MIN-MAX\<close> and \<open>min-max\<close>, \<^verbatim>\<open>get_norm\<close> is the extraction of the pixels followed by
  \<^verbatim>\<open>minmax\<close> on the extracted list: the name is lowered before the lookup and both
  registered names hold \<^verbatim>\<open>minmax\<close>. So the four names give the same result and the same
  store.
\<close>

theorem get_norm_resolves_to_minmax:
  assumes "norm_type \<in> {''minmax'', ''MinMax'', ''MIN-MAX'', ''min-max''}"
  shows "get_norm s images norm_type timing kwargs =
           (case extract_pixels s images False of
              (Inl e, s1) \<Rightarrow> (Inl e, s1)
            | (Inr pixels, s1) \<Rightarrow>
                (case minmax s1 pixels timing kwargs of
                   (Inl e, s2) \<Rightarrow> (Inl e, s2)
                 | (Inr (normalized_pixels, aux), s2) \<Rightarrow>
                     (Inr (normalized_pixels, None),
                      if timing then logger_info s2 ''get_norm'' else s2))) \<and>
         get_norm s images norm_type timing kwargs = get_norm s images ''minmax'' timing kwargs"
proof -
  have l: "lower norm_type = ''minmax'' \<or> lower norm_type = ''min-max''"
    using assms lower_MinMax lower_MIN_MAX lower_minmax lower_min_max by auto
  have m: "map_of [(''minmax'', minmax), (''min-max'', minmax)] (lower norm_type) = Some minmax"
    using l registry_minmax registry_min_max by metis
  have m0: "map_of [(''minmax'', minmax), (''min-max'', minmax)] (lower ''minmax'') = Some minmax"
    unfolding lower_minmax by (rule registry_minmax)
  have a: "get_norm s images norm_type timing kwargs =
           (case extract_pixels s images False of
              (Inl e, s1) \<Rightarrow> (Inl e, s1)
            | (Inr pixels, s1) \<Rightarrow>
                (case minmax s1 pixels timing kwargs of
                   (Inl e, s2) \<Rightarrow> (Inl e, s2)
                 | (Inr (normalized_pixels, aux), s2) \<Rightarrow>
                     (Inr (normalized_pixels, None),
                      if timing then logger_info s2 ''get_norm'' else s2)))"
    using l by (auto simp: get_norm_unfold split: prod.splits sum.splits)
  have b: "get_norm s images ''minmax'' timing kwargs =
           (case extract_pixels s images False of
              (Inl e, s1) \<Rightarrow> (Inl e, s1)
            | (Inr pixels, s1) \<Rightarrow>
                (case minmax s1 pixels timing kwargs of
                   (Inl e, s2) \<Rightarrow> (Inl e, s2)
                 | (Inr (normalized_pixels, aux), s2) \<Rightarrow>
                     (Inr (normalized_pixels, None),
                      if timing then logger_info s2 ''get_norm'' else s2)))"
    by (auto simp: get_norm_unfold lower_minmax split: prod.splits sum.splits)
  show ?thesis using a b by simp
qed

text \<open>With the name \<open>MIN-MAX\<close>, the array \<open>[[0, 10], [20, 30]]\<close> is normalized to
  \<open>[[0, 85], [170, 255]]\<close>.\<close>

theorem get_norm_resolves_to_minmax_witness:
  "''MIN-MAX'' \<in> {''minmax'', ''MinMax'', ''MIN-MAX'', ''min-max''} \<and>
   get_norm
     \<lparr>heap = [ArrayObj \<lparr>dtype = Int64, shape = [2, 2], data = [Fin 0, Fin 10, Fin 20, Fin 30]\<rparr>],
      logged = []\<rparr> 0 ''MIN-MAX'' False [] =
   (Inr (5, None),
    \<lparr>heap = [ArrayObj \<lparr>dtype = Int64, shape = [2, 2], data = [Fin 0, Fin 10, Fin 20, Fin 30]\<rparr>,
             ListObj [], ListObj [0],
             ArrayObj \<lparr>dtype = Float32, shape = [2, 2], data = [Fin 0, Fin 10, Fin 20, Fin 30]\<rparr>,
             ArrayObj \<lparr>dtype = Float32, shape = [2, 2], data = [Fin 0, Fin 85, Fin 170, Fin 255]\<rparr>,
             ListObj [4]],
     logged = []\<rparr>)"
proof -
  have h: "''MIN-MAX'' \<in> {''minmax'', ''MinMax'', ''MIN-MAX'', ''min-max''}" by simp
  have e: "extract_pixels
     \<lparr>heap = [ArrayObj \<lparr>dtype = Int64, shape = [2, 2], data = [Fin 0, Fin 10, Fin 20, Fin 30]\<rparr>],
      logged = []\<rparr> 0 False =
     (Inr 2, \<lparr>heap = [ArrayObj \<lparr>dtype = Int64, shape = [2, 2],
                                   data = [Fin 0, Fin 10, Fin 20, Fin 30]\<rparr>, ListObj [], ListObj [0]],
              logged = []\<rparr>)"
    by (simp add: extract_pixels_def eval_defs)
  have m: "minmax \<lparr>heap = [ArrayObj \<lparr>dtype = Int64, shape = [2, 2],
                                   data = [Fin 0, Fin 10, Fin 20, Fin 30]\<rparr>, ListObj [], ListObj [0]],
              logged = []\<rparr> 2 False [] =
   (Inr (5, None),
    \<lparr>heap = [ArrayObj \<lparr>dtype = Int64, shape = [2, 2], data = [Fin 0, Fin 10, Fin 20, Fin 30]\<rparr>,
             ListObj [], ListObj [0],
             ArrayObj \<lparr>dtype = Float32, shape = [2, 2], data = [Fin 0, Fin 10, Fin 20, Fin 30]\<rparr>,
             ArrayObj \<lparr>dtype = Float32, shape = [2, 2], data = [Fin 0, Fin 85, Fin 170, Fin 255]\<rparr>,
             ListObj [4]],
     logged = []\<rparr>)"
    by (simp add: minmax_def py_iter_def eval_defs)
  show ?thesis
    using get_norm_resolves_to_minmax[OF h, of
        "\<lparr>heap = [ArrayObj \<lparr>dtype = Int64, shape = [2, 2],
                                data = [Fin 0, Fin 10, Fin 20, Fin 30]\<rparr>], logged = []\<rparr>" 0 False "[]"]
    by (simp add: e m)
qed

section \<open>Single inputs that \<^verbatim>\<open>extract_pixels\<close> rejects\<close>

text \<open>
  Claim C8 says that every single input that is neither an array nor a record with a
  \<^verbatim>\<open>pixels\<close> field fails with the \<^verbatim>\<open>TypeError\<close> of an unsupported type.
  \<^verbatim>\<open>extract_pixels\<close> decides by the type of its input, and it reads \<^verbatim>\<open>images.pixels\<close> of
  every \<^verbatim>\<open>SimpleNamespace\<close>: for a namespace without that attribute the read raises
  \<^verbatim>\<open>AttributeError\<close>.
\<close>

theorem extract_pixels_namespace_without_pixels:
  "fst (extract_pixels \<lparr>heap = [NamespaceObj None], logged = []\<rparr> 0 False) =
     Inl (AttributeError ''pixels'') \<and>
   fst (extract_pixels \<lparr>heap = [NamespaceObj None], logged = []\<rparr> 0 False) \<noteq>
     Inl (TypeError (unknown_type_msg ''types.SimpleNamespace''))"
  by (simp add: extract_pixels_def alloc_def deref_def)

text \<open>
  Claim C8, amended. A single input that is not a list, not an array and not a
  \<^verbatim>\<open>SimpleNamespace\<close> makes \<^verbatim>\<open>extract_pixels\<close> fail with the \<^verbatim>\<open>TypeError\<close> that names
  its type; this covers the integer \<open>42\<close> and a bare \<^verbatim>\<open>FileDataset\<close>, which is accepted
  inside a list only. A \<^verbatim>\<open>SimpleNamespace\<close> without a \<^verbatim>\<open>pixels\<close> attribute fails with
  \<^verbatim>\<open>AttributeError\<close>.
\<close>

theorem extract_pixels_unsupported_single:
  assumes "images < length (heap s)"
  shows "((\<forall>xs. deref s images \<noteq> ListObj xs) \<and> (\<forall>a. deref s images \<noteq> ArrayObj a) \<and>
          (\<forall>attr. deref s images \<noteq> NamespaceObj attr) \<longrightarrow>
            fst (extract_pixels s images timing) =
              Inl (TypeError (unknown_type_msg (type_name (deref s images))))) \<and>
         (deref s images = NamespaceObj None \<longrightarrow>
            fst (extract_pixels s images timing) = Inl (AttributeError ''pixels''))"
proof (intro conjI impI)
  assume h: "(\<forall>xs. deref s images \<noteq> ListObj xs) \<and> (\<forall>a. deref s images \<noteq> ArrayObj a) \<and>
          (\<forall>attr. deref s images \<noteq> NamespaceObj attr)"
  show "fst (extract_pixels s images timing) =
          Inl (TypeError (unknown_type_msg (type_name (deref s images))))"
  proof (cases "deref s images")
    case (DatasetObj p)
    then show ?thesis using extract_pixels_dataset[OF assms DatasetObj, of timing] by simp
  next
    case (OtherObj t)
    then show ?thesis using extract_pixels_other[OF assms OtherObj, of timing] by simp
  qed (use h in simp_all)
next
  assume "deref s images = NamespaceObj None"
  then show "fst (extract_pixels s images timing) = Inl (AttributeError ''pixels'')"
    using assms by (rule extract_pixels_namespace_none[rotated])
qed

theorem extract_pixels_unsupported_single_witness:
  "fst (extract_pixels
          \<lparr>heap = [OtherObj ''int'', DatasetObj 2,
                   ArrayObj \<lparr>dtype = UInt16, shape = [1], data = [Fin 7]\<rparr>, NamespaceObj None],
           logged = []\<rparr> 0 False) = Inl (TypeError (unknown_type_msg ''int'')) \<and>
   fst (extract_pixels
          \<lparr>heap = [OtherObj ''int'', DatasetObj 2,
                   ArrayObj \<lparr>dtype = UInt16, shape = [1], data = [Fin 7]\<rparr>, NamespaceObj None],
           logged = []\<rparr> 1 False) =
     Inl (TypeError (unknown_type_msg ''pydicom.dataset.FileDataset'')) \<and>
   fst (extract_pixels
          \<lparr>heap = [OtherObj ''int'', DatasetObj 2,
                   ArrayObj \<lparr>dtype = UInt16, shape = [1], data = [Fin 7]\<rparr>, NamespaceObj None],
           logged = []\<rparr> 3 False) = Inl (AttributeError ''pixels'')"
proof -
  let ?S = "\<lparr>heap = [OtherObj ''int'', DatasetObj 2,
                    ArrayObj \<lparr>dtype = UInt16, shape = [1], data = [Fin 7]\<rparr>, NamespaceObj None],
            logged = []\<rparr>"
  have v: "0 < length (heap ?S)" "1 < length (heap ?S)" "3 < length (heap ?S)" by simp_all
  have d: "deref ?S 0 = OtherObj ''int''" "deref ?S 1 = DatasetObj 2" "deref ?S 3 = NamespaceObj None"
    by (simp_all add: deref_def)
  show ?thesis
    using extract_pixels_unsupported_single[OF v(1), of False]
      extract_pixels_unsupported_single[OF v(2), of False]
      extract_pixels_unsupported_single[OF v(3), of False]
    unfolding d by simp
qed

end
